theory Spec2Isabelle
  imports Main
begin

section \<open>Strings: the functions of Go's \<^verbatim>\<open>strings\<close> package that the converter calls\<close>

text \<open>
  A Go string is modelled as a \<^typ>\<open>string\<close>, one \<^typ>\<open>char\<close> per byte. White space is
  the ASCII part of \<^verbatim>\<open>unicode.IsSpace\<close> (tab, line feed, vertical tab, form feed,
  carriage return, space); the two-byte encodings of U+0085 and U+00A0 and the other
  Unicode spaces are ordinary bytes here.
\<close>

definition isSpace :: "char \<Rightarrow> bool" where
  "isSpace c = (c \<in> set [CHR 0x09, CHR 0x0A, CHR 0x0B, CHR 0x0C, CHR 0x0D, CHR 0x20])"

text \<open>The class \<^verbatim>\<open>\s\<close> of Go's regexp syntax: \<^verbatim>\<open>[\t\n\f\r ]\<close> (no vertical tab).\<close>

definition reSpace :: "char \<Rightarrow> bool" where
  "reSpace c = (c \<in> set [CHR 0x09, CHR 0x0A, CHR 0x0C, CHR 0x0D, CHR 0x20])"

text \<open>The class \<^verbatim>\<open>\w\<close>: \<^verbatim>\<open>[0-9A-Za-z_]\<close>.\<close>

definition isWord :: "char \<Rightarrow> bool" where
  "isWord c = (c \<in> set (''0123456789'' @ ''ABCDEFGHIJKLMNOPQRSTUVWXYZ''
                 @ ''abcdefghijklmnopqrstuvwxyz'' @ ''_''))"

definition strings_TrimSpace :: "string \<Rightarrow> string" where
  "strings_TrimSpace s = rev (dropWhile isSpace (rev (dropWhile isSpace s)))"

fun strings_HasPrefix :: "string \<Rightarrow> string \<Rightarrow> bool" where
  "strings_HasPrefix s [] = True"
| "strings_HasPrefix [] (p # ps) = False"
| "strings_HasPrefix (c # cs) (p # ps) = (c = p \<and> strings_HasPrefix cs ps)"

definition strings_HasSuffix :: "string \<Rightarrow> string \<Rightarrow> bool" where
  "strings_HasSuffix s suf = strings_HasPrefix (rev s) (rev suf)"

fun strings_Contains :: "string \<Rightarrow> string \<Rightarrow> bool" where
  "strings_Contains [] sub = (sub = [])"
| "strings_Contains (c # cs) sub = (strings_HasPrefix (c # cs) sub \<or> strings_Contains cs sub)"

text \<open>
  \<^verbatim>\<open>strings.Split(s, sep)\<close> for a non-empty separator: the pieces between the
  non-overlapping occurrences of \<open>sep\<close>, found left to right. The accumulator holds the
  current piece, reversed. The result is never empty.
\<close>

function split_from :: "string \<Rightarrow> string \<Rightarrow> string \<Rightarrow> string list" where
  "split_from sep acc [] = [rev acc]"
| "split_from sep acc (c # cs) =
     (if sep \<noteq> [] \<and> strings_HasPrefix (c # cs) sep
      then rev acc # split_from sep [] (drop (length sep) (c # cs))
      else split_from sep (c # acc) cs)"
  by pat_completeness auto
termination
  by (relation "measure (\<lambda>(sep, acc, s). length s)") (auto simp: neq_Nil_conv)

definition strings_Split :: "string \<Rightarrow> string \<Rightarrow> string list" where
  "strings_Split s sep = split_from sep [] s"

text \<open>\<^verbatim>\<open>strings.SplitN(s, sep, 2)\<close> for a one-byte separator: cut at its first occurrence.\<close>

definition strings_SplitN2 :: "string \<Rightarrow> char \<Rightarrow> string list" where
  "strings_SplitN2 s c =
     (if c \<in> set s then [takeWhile (\<lambda>x. x \<noteq> c) s, tl (dropWhile (\<lambda>x. x \<noteq> c) s)] else [s])"

text \<open>\<^verbatim>\<open>strings.Fields\<close>: the maximal runs of non-space bytes.\<close>

fun fields_from :: "string \<Rightarrow> string \<Rightarrow> string list" where
  "fields_from acc [] = (if acc = [] then [] else [rev acc])"
| "fields_from acc (c # cs) =
     (if isSpace c then (if acc = [] then fields_from [] cs else rev acc # fields_from [] cs)
      else fields_from (c # acc) cs)"

definition strings_Fields :: "string \<Rightarrow> string list" where
  "strings_Fields s = fields_from [] s"

text \<open>\<^verbatim>\<open>strings.ReplaceAll(s, old, new)\<close> for a non-empty \<open>old\<close>.\<close>

function strings_ReplaceAll :: "string \<Rightarrow> string \<Rightarrow> string \<Rightarrow> string" where
  "strings_ReplaceAll [] old new = []"
| "strings_ReplaceAll (c # cs) old new =
     (if old \<noteq> [] \<and> strings_HasPrefix (c # cs) old
      then new @ strings_ReplaceAll (drop (length old) (c # cs)) old new
      else c # strings_ReplaceAll cs old new)"
  by pat_completeness auto
termination
  by (relation "measure (\<lambda>(s, old, new). length s)") (auto simp: neq_Nil_conv)

text \<open>\<^verbatim>\<open>fmt.Sprintf("%d", n)\<close> for a count that is never negative.\<close>

definition digit :: "nat \<Rightarrow> char" where
  "digit d = ''0123456789'' ! d"

fun showNat :: "nat \<Rightarrow> string" where
  "showNat n = (if n < 10 then [digit n] else showNat (n div 10) @ [digit (n mod 10)])"

declare showNat.simps [simp del]

section \<open>The regular expressions of the converter\<close>

text \<open>
  Each pattern of \<^verbatim>\<open>convertHTTPToPostman\<close> is modelled by a function that returns what
  \<^verbatim>\<open>FindStringSubmatch\<close> captures (\<open>None\<close> when \<^verbatim>\<open>MatchString\<close> is false). In Go's
  syntax \<^verbatim>\<open>.\<close> matches every byte but the line feed and \<^verbatim>\<open>$\<close> only the end of the text.
\<close>

definition newline :: char where
  "newline = CHR 0x0A"

text \<open>
  The tail \<^verbatim>\<open>\s*(.+)$\<close> (\<open>n = 0\<close>) or \<^verbatim>\<open>\s+(.+)$\<close> (\<open>n = 1\<close>): the greedy run of spaces
  takes every leading space, and gives one back when nothing else is left to capture.
\<close>

definition re_spaces_capture :: "nat \<Rightarrow> string \<Rightarrow> string option" where
  "re_spaces_capture n s =
     (let ws = takeWhile reSpace s; r = dropWhile reSpace s in
      if r \<noteq> [] then (if n \<le> length ws \<and> newline \<notin> set r then Some r else None)
      else if n < length ws \<and> last ws \<noteq> newline then Some [last ws] else None)"

text \<open>\<^verbatim>\<open>^(GET|PUT|POST|DELETE|OPTIONS)\s+.+\<close>\<close>

definition httpVerbs :: "string list" where
  "httpVerbs = [''GET'', ''PUT'', ''POST'', ''DELETE'', ''OPTIONS'']"

definition re_spaces_any :: "string \<Rightarrow> bool" where
  "re_spaces_any s =
     (let ws = takeWhile reSpace s; r = dropWhile reSpace s in
      ws \<noteq> [] \<and> (r \<noteq> [] \<or> list_ex (\<lambda>c. c \<noteq> newline) (tl ws)))"

definition httpMethodRegex :: "string \<Rightarrow> bool" where
  "httpMethodRegex line =
     list_ex (\<lambda>v. strings_HasPrefix line v \<and> re_spaces_any (drop (length v) line)) httpVerbs"

text \<open>\<^verbatim>\<open>^#\s*@group_name\s+(.+)$\<close>\<close>

definition groupRegex :: "string \<Rightarrow> string option" where
  "groupRegex line =
     (if strings_HasPrefix line ''#'' then
        (let r = dropWhile reSpace (drop 1 line) in
         if strings_HasPrefix r ''@group_name''
         then re_spaces_capture 1 (drop (length ''@group_name'') r) else None)
      else None)"

text \<open>\<^verbatim>\<open>^#\s*@name\s+(\w+)$\<close>\<close>

definition nameRegex :: "string \<Rightarrow> string option" where
  "nameRegex line =
     (if strings_HasPrefix line ''#'' then
        (let r = dropWhile reSpace (drop 1 line) in
         if strings_HasPrefix r ''@name'' then
           (let t = drop (length ''@name'') r; w = dropWhile reSpace t in
            if takeWhile reSpace t \<noteq> [] \<and> w \<noteq> [] \<and> list_all isWord w then Some w else None)
         else None)
      else None)"

text \<open>\<^verbatim>\<open>^//\s*(.+)$\<close>\<close>

definition descriptionRegex :: "string \<Rightarrow> string option" where
  "descriptionRegex line =
     (if strings_HasPrefix line ''//'' then re_spaces_capture 0 (drop 2 line) else None)"

text \<open>\<^verbatim>\<open>^###.*$\<close>\<close>

definition requestSeparatorRegex :: "string \<Rightarrow> bool" where
  "requestSeparatorRegex line = (strings_HasPrefix line ''###'' \<and> newline \<notin> set (drop 3 line))"

text \<open>\<^verbatim>\<open>^@(\w+)\s*=\s*(.+)$\<close>: the name and the value as captured (the caller trims the value).\<close>

definition localVariableRegex :: "string \<Rightarrow> (string \<times> string) option" where
  "localVariableRegex line =
     (if strings_HasPrefix line ''@'' then
        (let w = takeWhile isWord (drop 1 line);
             r = dropWhile reSpace (dropWhile isWord (drop 1 line)) in
         if w \<noteq> [] \<and> strings_HasPrefix r ''='' then
           (case re_spaces_capture 0 (drop 1 r) of None \<Rightarrow> None | Some v \<Rightarrow> Some (w, v))
         else None)
      else None)"

text \<open>
  \<^verbatim>\<open>request\.variables\.set\("([^"]+)",\s*"([^"]+)"\)\<close>, unanchored: the leftmost match.
  \<open>setterAt\<close> matches the pattern at the head of the text.
\<close>

definition dquote :: char where
  "dquote = CHR 0x22"

definition setterAt :: "string \<Rightarrow> (string \<times> string) option" where
  "setterAt s =
     (let p = ''request.variables.set('' @ [dquote] in
      if strings_HasPrefix s p then
        (let a = drop (length p) s;
             k = takeWhile (\<lambda>c. c \<noteq> dquote) a;
             b = dropWhile (\<lambda>c. c \<noteq> dquote) a in
         if k \<noteq> [] \<and> strings_HasPrefix b (dquote # '','') then
           (let c = dropWhile reSpace (drop 2 b) in
            if strings_HasPrefix c [dquote] then
              (let d = drop 1 c;
                   v = takeWhile (\<lambda>c. c \<noteq> dquote) d;
                   e = dropWhile (\<lambda>c. c \<noteq> dquote) d in
               if v \<noteq> [] \<and> strings_HasPrefix e (dquote # '')'') then Some (k, v) else None)
            else None)
         else None)
      else None)"

fun requestVariableRegex :: "string \<Rightarrow> (string \<times> string) option" where
  "requestVariableRegex [] = None"
| "requestVariableRegex (c # cs) =
     (case setterAt (c # cs) of Some kv \<Rightarrow> Some kv | None \<Rightarrow> requestVariableRegex cs)"

text \<open>
  \<^verbatim>\<open>\{\{(\w+)\}\}\<close>: \<open>varAt\<close> matches at the head of the text and returns the name and
  the text after the match; \<open>varRegex_FindAll\<close> is \<^verbatim>\<open>FindAllStringSubmatch(text, -1)\<close>, the
  names of the non-overlapping matches from left to right.
\<close>

definition varAt :: "string \<Rightarrow> (string \<times> string) option" where
  "varAt s =
     (if strings_HasPrefix s ''{{'' then
        (let w = takeWhile isWord (drop 2 s); t = dropWhile isWord (drop 2 s) in
         if w \<noteq> [] \<and> strings_HasPrefix t ''}}'' then Some (w, drop 2 t) else None)
      else None)"

lemma varAt_shorter: "varAt s = Some (w, t) \<Longrightarrow> length t < length s"
proof -
  assume a: "varAt s = Some (w, t)"
  then have t: "t = drop 2 (dropWhile isWord (drop 2 s))" and p: "strings_HasPrefix s ''{{''"
    by (auto simp: varAt_def Let_def split: if_splits)
  from p have "s \<noteq> []" by (cases s) auto
  moreover have "length (dropWhile isWord (drop 2 s)) \<le> length (drop 2 s)"
    by (rule length_dropWhile_le)
  ultimately show ?thesis using t by (cases s) auto
qed

function varRegex_FindAll :: "string \<Rightarrow> string list" where
  "varRegex_FindAll [] = []"
| "varRegex_FindAll (c # cs) =
     (case varAt (c # cs) of
        Some (w, t) \<Rightarrow> w # varRegex_FindAll t
      | None \<Rightarrow> varRegex_FindAll cs)"
  by pat_completeness auto
termination
  by (relation "measure length") (auto dest: varAt_shorter)

section \<open>The document model\<close>

text \<open>
  The structs of the converter. A nil slice and an empty slice are both the empty list,
  a nil map and an empty map both the empty map. \<open>Options\<close> of a body is either absent
  (the empty list) or the one nested entry the converter writes.
\<close>

record Header =
  header_Key :: string
  header_Value :: string
  header_Type :: string

record Body =
  body_Mode :: string
  body_Raw :: string
  body_Options :: "(string \<times> (string \<times> string) list) list"

record QueryParam =
  qp_Key :: string
  qp_Value :: string

record Variable =
  var_Key :: string
  var_Value :: string
  var_Type :: string

record URL =
  url_Raw :: string
  url_Protocol :: string
  url_Host :: "string list"
  url_Path :: "string list"
  url_Query :: "QueryParam list"
  url_Variable :: "Variable list"

record Request =
  req_Method :: string
  req_Header :: "Header list"
  req_Body :: Body
  req_URL :: URL

datatype Item =
  Item (item_Name: string) (item_Description: string) (item_Item: "Item list")
       (item_Request: Request)

record Group =
  group_Name :: string
  group_Items :: "Item list"

record Info =
  info_Name :: string
  info_Description :: string
  info_Schema :: string

record Collection =
  coll_Info :: Info
  coll_Items :: "Item list"
  coll_Variable :: "Variable list"

type_synonym Environment = "string \<rightharpoonup> (string \<rightharpoonup> string)"

definition emptyBody :: Body where
  "emptyBody = \<lparr>body_Mode = [], body_Raw = [], body_Options = []\<rparr>"

definition emptyURL :: URL where
  "emptyURL = \<lparr>url_Raw = [], url_Protocol = [], url_Host = [], url_Path = [],
                url_Query = [], url_Variable = []\<rparr>"

definition emptyRequest :: Request where
  "emptyRequest = \<lparr>req_Method = [], req_Header = [], req_Body = emptyBody, req_URL = emptyURL\<rparr>"

definition emptyItem :: Item where
  "emptyItem = Item [] [] [] emptyRequest"

section \<open>\<^verbatim>\<open>detectVariables\<close> and \<^verbatim>\<open>parseURL\<close>\<close>

definition detectVariables :: "string \<Rightarrow> string list" where
  "detectVariables text = varRegex_FindAll text"

text \<open>
  The value of a path variable: the request script's value unless it is absent or
  empty, then the file-local value, then the empty string.
\<close>

definition pathVarValue :: "(string \<rightharpoonup> string) \<Rightarrow> (string \<rightharpoonup> string) \<Rightarrow> string \<Rightarrow> string" where
  "pathVarValue localVars requestVars varName =
     (let varValue = (case requestVars varName of Some val \<Rightarrow> val | None \<Rightarrow> []) in
      if varValue = [] then (case localVars varName of Some val \<Rightarrow> val | None \<Rightarrow> [])
      else varValue)"

text \<open>One round of the loop over the matches of a path segment.\<close>

definition pathMatch ::
  "(string \<rightharpoonup> string) \<Rightarrow> (string \<rightharpoonup> string) \<Rightarrow> string \<times> Variable list \<Rightarrow> string
     \<Rightarrow> string \<times> Variable list" where
  "pathMatch localVars requestVars acc varName =
     (strings_ReplaceAll (fst acc) (''{{'' @ varName @ ''}}'') ('':'' @ varName),
      snd acc @ [\<lparr>var_Key = varName,
                  var_Value = pathVarValue localVars requestVars varName,
                  var_Type = ''string''\<rparr>])"

text \<open>One round of the loop over the segments after the first: empty segments are skipped.\<close>

definition pathSegment ::
  "(string \<rightharpoonup> string) \<Rightarrow> (string \<rightharpoonup> string) \<Rightarrow> string list \<times> Variable list \<Rightarrow> string
     \<Rightarrow> string list \<times> Variable list" where
  "pathSegment localVars requestVars acc part =
     (if part \<noteq> [] then
        (if varRegex_FindAll part \<noteq> [] then
           (let r = foldl (pathMatch localVars requestVars) (part, snd acc) (varRegex_FindAll part)
            in (fst acc @ [fst r], snd r))
         else (fst acc @ [part], snd acc))
      else acc)"

definition parseURL ::
  "string \<Rightarrow> URL \<Rightarrow> (string \<rightharpoonup> string) \<Rightarrow> (string \<rightharpoonup> string) \<Rightarrow> URL" where
  "parseURL rawURL url localVars requestVars =
     (if strings_Contains rawURL ''{{baseUrl}}'' \<or> strings_Contains rawURL ''{{baseURL}}'' then
        (let url1 = url\<lparr>url_Host := [''{{baseUrl}}'']\<rparr>;
             pathPart = (if strings_Contains rawURL ''?''
                         then hd (strings_Split rawURL ''?'') else rawURL);
             parts = strings_Split pathPart ''/'';
             walked = foldl (pathSegment localVars requestVars) ([], []) (tl parts);
             url2 = (if strings_Contains pathPart ''/'' \<and> length parts > 1
                     then url1\<lparr>url_Path := fst walked\<rparr> else url1);
             pathVariables = (if strings_Contains pathPart ''/'' \<and> length parts > 1
                              then snd walked else [])
         in if length pathVariables > 0 then url2\<lparr>url_Variable := pathVariables\<rparr> else url2)
      else if strings_Contains rawURL ''://'' then
        (let protocolParts = strings_Split rawURL ''://'';
             url1 = url\<lparr>url_Protocol := protocolParts ! 0\<rparr>;
             cleanURL = (if strings_Contains (protocolParts ! 1) ''?''
                         then hd (strings_Split (protocolParts ! 1) ''?'')
                         else protocolParts ! 1)
         in if strings_Contains cleanURL ''/'' then
              (let urlParts = strings_Split cleanURL ''/'';
                   url2 = url1\<lparr>url_Host := strings_Split (urlParts ! 0) ''.''\<rparr>
               in if length urlParts > 1 then url2\<lparr>url_Path := tl urlParts\<rparr> else url2)
            else url1\<lparr>url_Host := strings_Split cleanURL ''.''\<rparr>)
      else
        (let urlParts = strings_Split rawURL ''/''
         in if length urlParts > 0 then url\<lparr>url_Host := strings_Split (urlParts ! 0) ''.''\<rparr>
            else url))"

text \<open>
  The query parameters of a method line, appended to the request's list: the text
  between the first and the second question mark, cut at every \<^verbatim>\<open>&\<close>; a pair is cut at
  every \<^verbatim>\<open>=\<close> and its first two pieces are kept.
\<close>

definition queryParam :: "QueryParam list \<Rightarrow> string \<Rightarrow> QueryParam list" where
  "queryParam query param =
     (if strings_Contains param ''='' then
        (let kv = strings_Split param ''=''
         in query @ [\<lparr>qp_Key = strings_TrimSpace (kv ! 0), qp_Value = strings_TrimSpace (kv ! 1)\<rparr>])
      else query)"

definition parseQuery :: "string \<Rightarrow> QueryParam list \<Rightarrow> QueryParam list" where
  "parseQuery rawURL query =
     (if strings_Contains rawURL ''?'' then
        (let queryParts = strings_Split rawURL ''?''
         in if length queryParts > 1
            then foldl queryParam query (strings_Split (queryParts ! 1) ''&'')
            else query)
      else query)"

section \<open>The line loop of \<^verbatim>\<open>convertHTTPToPostman\<close>\<close>

text \<open>
  The local variables of \<^verbatim>\<open>convertHTTPToPostman\<close> that the loop over the lines reads and
  writes, under their own names. \<open>currentGroup\<close> is the pointer (\<open>None\<close> is nil), the
  two tables are Go maps.
\<close>

record conv_state =
  groups :: "Group list"
  currentGroup :: "Group option"
  allItems :: "Item list"
  hasGroupSeparators :: bool
  item :: Item
  req :: Request
  headers :: "Header list"
  body :: Body
  url :: URL
  query :: "QueryParam list"
  data :: string
  count :: nat
  startedJSON :: bool
  currentRequestName :: string
  currentRequestDescription :: string
  requestVariables :: "string \<rightharpoonup> string"
  inRequestScript :: bool
  localVariables :: "string \<rightharpoonup> string"

definition initState :: conv_state where
  "initState =
     \<lparr>groups = [], currentGroup = None, allItems = [], hasGroupSeparators = False,
      item = emptyItem, req = emptyRequest, headers = [], body = emptyBody, url = emptyURL,
      query = [], data = [], count = 0, startedJSON = False, currentRequestName = [],
      currentRequestDescription = [], requestVariables = Map.empty, inRequestScript = False,
      localVariables = Map.empty\<rparr>"

definition resetRequest :: "conv_state \<Rightarrow> conv_state" where
  "resetRequest st =
     st\<lparr>item := emptyItem, req := emptyRequest, headers := [], body := emptyBody,
        url := emptyURL, query := [], data := [], startedJSON := False,
        currentRequestName := [], requestVariables := Map.empty, inRequestScript := False\<rparr>"

text \<open>The group line: the open group is stored when it has items, and a new one is opened.\<close>

definition onGroup :: "conv_state \<Rightarrow> string \<Rightarrow> conv_state" where
  "onGroup st captured =
     st\<lparr>groups := (case currentGroup st of
                       Some g \<Rightarrow> if length (group_Items g) > 0 then groups st @ [g] else groups st
                     | None \<Rightarrow> groups st),
        currentGroup := Some \<lparr>group_Name = strings_TrimSpace captured, group_Items = []\<rparr>,
        hasGroupSeparators := True\<rparr>"

text \<open>The scan of a script line for the variable setter, written four times in the source.\<close>

definition scanSetter :: "conv_state \<Rightarrow> string \<Rightarrow> conv_state" where
  "scanSetter st line =
     (case requestVariableRegex line of
        Some (varName, varValue) \<Rightarrow> st\<lparr>requestVariables := (requestVariables st)(varName \<mapsto> varValue)\<rparr>
      | None \<Rightarrow> st)"

text \<open>The request that sealing builds from the accumulators.\<close>

definition sealedRequest :: "conv_state \<Rightarrow> Request" where
  "sealedRequest st =
     (req st)\<lparr>req_Header := headers st, req_Body := body st,
              req_URL := (url st)\<lparr>url_Query := query st\<rparr>\<rparr>"

text \<open>The separator line (lines 527 to 552 of the source): seal when method and URL are set.\<close>

definition sealOnSeparator :: "conv_state \<Rightarrow> conv_state" where
  "sealOnSeparator st =
     (if req_Method (req st) \<noteq> [] \<and> url_Raw (url st) \<noteq> [] then
        (let req1 = sealedRequest st;
             count1 = (if currentRequestName st \<noteq> [] then count st else count st + 1);
             name = (if currentRequestName st \<noteq> [] then currentRequestName st
                     else ''request-'' @ showNat count1);
             description = (if currentRequestDescription st \<noteq> []
                            then currentRequestDescription st else item_Description (item st));
             item1 = Item name description (item_Item (item st)) req1;
             st1 = st\<lparr>req := req1, item := item1, count := count1\<rparr>
         in case currentGroup st of
              Some g \<Rightarrow>
                if hasGroupSeparators st
                then st1\<lparr>currentGroup := Some (g\<lparr>group_Items := group_Items g @ [item1]\<rparr>)\<rparr>
                else st1\<lparr>allItems := allItems st @ [item1]\<rparr>
            | None \<Rightarrow> st1\<lparr>allItems := allItems st @ [item1]\<rparr>)
      else st)"

definition onSeparator :: "conv_state \<Rightarrow> conv_state" where
  "onSeparator st = (resetRequest (sealOnSeparator st))\<lparr>currentRequestDescription := []\<rparr>"

definition onMethod :: "conv_state \<Rightarrow> string \<Rightarrow> conv_state" where
  "onMethod st line =
     (let parts = strings_Fields line in
      if length parts \<ge> 2 then
        st\<lparr>req := (req st)\<lparr>req_Method := parts ! 0\<rparr>,
           url := parseURL (parts ! 1) ((url st)\<lparr>url_Raw := parts ! 1\<rparr>)
                    (localVariables st) (requestVariables st),
           query := parseQuery (parts ! 1) (query st)\<rparr>
      else st)"

definition jsonOptions :: "(string \<times> (string \<times> string) list) list" where
  "jsonOptions = [(''raw'', [(''language'', ''json'')])]"

definition onBodyStart :: "conv_state \<Rightarrow> string \<Rightarrow> conv_state" where
  "onBodyStart st line =
     (let body1 = (body st)\<lparr>body_Mode := ''raw'', body_Options := jsonOptions\<rparr> in
      if strings_HasSuffix line ''}''
      then st\<lparr>body := body1\<lparr>body_Raw := strings_TrimSpace line\<rparr>, startedJSON := False\<rparr>
      else st\<lparr>body := body1, startedJSON := True, data := data st @ line @ [newline]\<rparr>)"

definition onHeader :: "conv_state \<Rightarrow> string \<Rightarrow> conv_state" where
  "onHeader st line =
     (let headerParts = strings_SplitN2 line (CHR '':'') in
      if length headerParts = 2 then
        st\<lparr>headers := headers st @
              [\<lparr>header_Key = strings_TrimSpace (headerParts ! 0),
                header_Value = strings_TrimSpace (headerParts ! 1),
                header_Type = ''text''\<rparr>]\<rparr>
      else st)"

definition onBodyEnd :: "conv_state \<Rightarrow> string \<Rightarrow> conv_state" where
  "onBodyEnd st line =
     st\<lparr>data := data st @ line,
        body := (body st)\<lparr>body_Raw := strings_TrimSpace (data st @ line)\<rparr>,
        startedJSON := False\<rparr>"

text \<open>
  One round of the loop: the switch over the trimmed line, its cases in the order of
  the source. The first case whose condition holds is the one taken.
\<close>

definition processLine :: "conv_state \<Rightarrow> string \<Rightarrow> conv_state" where
  "processLine st text =
     (let line = strings_TrimSpace text in
      if line = [] then st
      else case groupRegex line of Some captured \<Rightarrow> onGroup st captured | None \<Rightarrow>
      (case nameRegex line of Some name \<Rightarrow> st\<lparr>currentRequestName := name\<rparr> | None \<Rightarrow>
      (case descriptionRegex line of
         Some description \<Rightarrow> st\<lparr>currentRequestDescription := description\<rparr> | None \<Rightarrow>
      (case localVariableRegex line of
         Some (varName, varValue) \<Rightarrow>
           st\<lparr>localVariables := (localVariables st)(varName \<mapsto> strings_TrimSpace varValue)\<rparr>
       | None \<Rightarrow>
      (if strings_HasPrefix line ''<'' \<and> strings_Contains line ''{%'' then
         (if strings_Contains line ''%}'' then scanSetter st line
          else scanSetter (st\<lparr>inRequestScript := True\<rparr>) line)
       else if strings_Contains line ''%}'' \<and> inRequestScript st then
         scanSetter (st\<lparr>inRequestScript := False\<rparr>) line
       else if inRequestScript st then scanSetter st line
       else if requestSeparatorRegex line then onSeparator st
       else if strings_HasPrefix line ''#'' then st
       else if httpMethodRegex line then onMethod st line
       else if strings_HasPrefix line ''{'' then onBodyStart st line
       else if strings_Contains line '':'' \<and> \<not> startedJSON st then onHeader st line
       else if strings_Contains line '':'' \<and> startedJSON st
         then st\<lparr>data := data st @ line @ [newline]\<rparr>
       else if strings_HasSuffix line ''}'' \<and> startedJSON st then onBodyEnd st line
       else if startedJSON st then st\<lparr>data := data st @ line @ [newline]\<rparr>
       else st)))))"

definition processLines :: "conv_state \<Rightarrow> string list \<Rightarrow> conv_state" where
  "processLines st lines = foldl processLine st lines"

section \<open>After the loop: the last request, the variables, the items\<close>

text \<open>The request left in the accumulators at the end of the input (lines 649 to 673).\<close>

definition sealLast :: "conv_state \<Rightarrow> conv_state" where
  "sealLast st =
     (if req_Method (req st) \<noteq> [] \<and> url_Raw (url st) \<noteq> [] then
        (let req1 = (req st)\<lparr>req_Header := headers st, req_Body := body st,
                              req_URL := (url st)\<lparr>url_Query := query st\<rparr>\<rparr>;
             named = (currentRequestName st \<noteq> []);
             count1 = (if named then count st else count st + 1);
             item1 = Item (if named then currentRequestName st else ''request-'' @ showNat count1)
                          (if currentRequestDescription st \<noteq> []
                           then currentRequestDescription st else item_Description (item st))
                          (item_Item (item st)) req1;
             st1 = st\<lparr>req := req1, item := item1, count := count1\<rparr>
         in if hasGroupSeparators st \<and> currentGroup st \<noteq> None
            then st1\<lparr>currentGroup :=
                       map_option (\<lambda>g. g\<lparr>group_Items := group_Items g @ [item1]\<rparr>) (currentGroup st)\<rparr>
            else st1\<lparr>allItems := allItems st @ [item1]\<rparr>)
      else st)"

text \<open>The open group is stored when it has items (lines 675 to 678).\<close>

definition finalGroups :: "conv_state \<Rightarrow> Group list" where
  "finalGroups st =
     (case currentGroup st of
        Some g \<Rightarrow> if length (group_Items g) > 0 then groups st @ [g] else groups st
      | None \<Rightarrow> groups st)"

text \<open>
  The collection variables (lines 680 to 717). The first loop runs over the detected
  names and keeps the names seen so far (\<open>uniqueVars\<close>, the second component); the
  environment's name is \<^verbatim>\<open>dev\<close>.
\<close>

definition envName :: string where
  "envName = ''dev''"

definition resolveVariable :: "(string \<rightharpoonup> string) \<Rightarrow> Environment \<Rightarrow> string \<Rightarrow> string" where
  "resolveVariable locals env varName =
     (case locals varName of
        Some localValue \<Rightarrow> localValue
      | None \<Rightarrow>
          (case env envName of
             Some vars \<Rightarrow> (case vars varName of Some val \<Rightarrow> val | None \<Rightarrow> [])
           | None \<Rightarrow> []))"

definition detectedVariable ::
  "(string \<rightharpoonup> string) \<Rightarrow> Environment \<Rightarrow> Variable list \<times> string list \<Rightarrow> string
     \<Rightarrow> Variable list \<times> string list" where
  "detectedVariable locals env acc varName =
     (if varName \<notin> set (snd acc) then
        (fst acc @ [\<lparr>var_Key = varName, var_Value = resolveVariable locals env varName,
                     var_Type = ''string''\<rparr>],
         snd acc @ [varName])
      else acc)"

text \<open>
  The second loop ranges over the Go map \<open>localVariables\<close>. The language leaves the order
  of that iteration open, so the order is an input here: \<open>rangeOrder\<close> lists the keys as
  one run of the program visits them, and any list of the keys without repetition is a
  possible one.
\<close>

definition validRangeOrder :: "(string \<rightharpoonup> string) \<Rightarrow> string list \<Rightarrow> bool" where
  "validRangeOrder m ks = (distinct ks \<and> set ks = dom m)"

definition undetectedLocal ::
  "(string \<rightharpoonup> string) \<Rightarrow> string list \<Rightarrow> Variable list \<Rightarrow> string \<Rightarrow> Variable list" where
  "undetectedLocal locals uniqueVars vars varName =
     (case locals varName of
        Some varValue \<Rightarrow>
          if varName \<notin> set uniqueVars
          then vars @ [\<lparr>var_Key = varName, var_Value = varValue, var_Type = ''string''\<rparr>]
          else vars
      | None \<Rightarrow> vars)"

definition collectionVariables ::
  "string list \<Rightarrow> (string \<rightharpoonup> string) \<Rightarrow> Environment \<Rightarrow> string list \<Rightarrow> Variable list" where
  "collectionVariables allVariables locals env rangeOrder =
     (let detected = foldl (detectedVariable locals env) ([], []) allVariables
      in foldl (undetectedLocal locals (snd detected)) (fst detected) rangeOrder)"

text \<open>The items (lines 722 to 754): folders when groups were stored, the flat list otherwise.\<close>

definition validItem :: "Item \<Rightarrow> bool" where
  "validItem i = (req_Method (item_Request i) \<noteq> [])"

definition folderItem :: "Item list \<Rightarrow> Group \<Rightarrow> Item list" where
  "folderItem items g =
     (if length (group_Items g) > 0 then
        (let validItems = filter validItem (group_Items g)
         in if length validItems > 0
            then items @ [Item (group_Name g) [] validItems emptyRequest]
            else items)
      else items)"

definition collectionItems :: "bool \<Rightarrow> Group list \<Rightarrow> Item list \<Rightarrow> Item list" where
  "collectionItems hasGroups gs flat =
     (if hasGroups \<and> length gs > 0 then foldl folderItem [] gs else filter validItem flat)"

definition schemaURL :: string where
  "schemaURL = ''https://schema.getpostman.com/json/collection/v2.1.0/collection.json''"

definition assemble ::
  "conv_state \<Rightarrow> string list \<Rightarrow> Environment \<Rightarrow> string list \<Rightarrow> string \<Rightarrow> Collection" where
  "assemble st allVariables env rangeOrder today =
     (let st1 = sealLast st in
      \<lparr>coll_Info = \<lparr>info_Name = ''jb-export-'' @ today, info_Description = [],
                    info_Schema = schemaURL\<rparr>,
       coll_Items = collectionItems (hasGroupSeparators st1) (finalGroups st1) (allItems st1),
       coll_Variable = collectionVariables allVariables (localVariables st1) env rangeOrder\<rparr>)"

section \<open>The scanner and \<^verbatim>\<open>convertHTTPToPostman\<close>\<close>

text \<open>
  Both passes read the file with a \<^verbatim>\<open>bufio.Scanner\<close> in its default setting: the split
  function is \<^verbatim>\<open>ScanLines\<close> and the buffer grows to \<^verbatim>\<open>MaxScanTokenSize\<close> bytes at most.
  The file is given as its lines, the pieces of text between the line feeds (the piece
  after the last line feed included when it is not empty). A line is delivered without
  its one trailing carriage return. A line must fit into the buffer together with its
  line feed; when the buffer is full of one line and holds no line feed, \<^verbatim>\<open>Scan\<close> returns
  false for good and \<^verbatim>\<open>Err\<close> returns \<^verbatim>\<open>ErrTooLong\<close>. So the scanner delivers the lines
  before the first line of \<^verbatim>\<open>MaxScanTokenSize\<close> bytes or more, and fails when there is
  such a line.
\<close>

definition MaxScanTokenSize :: nat where
  "MaxScanTokenSize = 64 * 1024"

definition dropCR :: "string \<Rightarrow> string" where
  "dropCR l = (if l \<noteq> [] \<and> last l = CHR 0x0D then butlast l else l)"

definition scannerLines :: "string list \<Rightarrow> string list" where
  "scannerLines lines = map dropCR (takeWhile (\<lambda>l. length l < MaxScanTokenSize) lines)"

definition scannerTooLong :: "string list \<Rightarrow> bool" where
  "scannerTooLong lines = list_ex (\<lambda>l. MaxScanTokenSize \<le> length l) lines"

text \<open>
  The conversion of an input file that could be opened. Its inputs are what the
  function reads from outside: the lines of the file, the result of
  \<^verbatim>\<open>loadEnvironment\<close> (an error, or the mapping of the companion file), the order in
  which the run ranges over the map of local variables, and the time stamp of
  \<^verbatim>\<open>time.Now\<close> as formatted. The first pass collects the text of the lines its scanner
  delivers and does not look at the scanner's error; the second pass runs the loop over
  the lines its scanner delivers and returns the scanner's error after the loop
  (lines 644 to 646). The result is the error returned before anything is written, or
  the collection handed to the JSON encoder.
\<close>

datatype env_error = EnvReadError string | EnvParseError string

datatype conv_error = VariablesWithoutEnvironment "string list" env_error | ErrTooLong

definition fileContent :: "string list \<Rightarrow> string" where
  "fileContent lines = concat (map (\<lambda>l. l @ [newline]) lines)"

text \<open>
  The function after the check of the variables (from line 377 on): the second pass,
  the error of its scanner, and the assembly of the collection.
\<close>

definition afterPrescan ::
  "string list \<Rightarrow> string list \<Rightarrow> Environment \<Rightarrow> string list \<Rightarrow> string \<Rightarrow> conv_error + Collection" where
  "afterPrescan lines allVariables env rangeOrder today =
     (let st = processLines initState (scannerLines lines) in
      if scannerTooLong lines then Inl ErrTooLong
      else Inr (assemble st allVariables env rangeOrder today))"

definition convertHTTPToPostman ::
  "string list \<Rightarrow> env_error + Environment \<Rightarrow> string list \<Rightarrow> string \<Rightarrow> conv_error + Collection" where
  "convertHTTPToPostman lines envResult rangeOrder today =
     (let allVariables = detectVariables (fileContent (scannerLines lines)) in
      case envResult of
        Inl envErr \<Rightarrow>
          if length allVariables > 0 then Inl (VariablesWithoutEnvironment allVariables envErr)
          else afterPrescan lines allVariables Map.empty rangeOrder today
      | Inr env \<Rightarrow> afterPrescan lines allVariables env rangeOrder today)"

section \<open>The revision of the converter that names requests on the separator line\<close>

text \<open>
  The second \<^verbatim>\<open>convertHTTPToPostman\<close> of \<^verbatim>\<open>src/http_to_postman.go\<close> (lines 793 to 1046): the
  revision with an environment and without groups, annotations and scripts. Its \<open>Item\<close>
  has a name and a request only, and its \<open>URL\<close> no variables; the fields it does not have
  stay empty here. Its local variables carry the prefix \<open>old\<close>.
\<close>

text \<open>
  \<^verbatim>\<open>substituteVariables\<close>: every match of the variable pattern whose name the active
  environment defines is replaced by its value; the text is returned as it is when the
  environment or its entry for the active name is nil.
\<close>

function substituteMatches :: "(string \<rightharpoonup> string) \<Rightarrow> string \<Rightarrow> string" where
  "substituteMatches vars [] = []"
| "substituteMatches vars (c # cs) =
     (case varAt (c # cs) of
        Some (w, t) \<Rightarrow>
          (case vars w of Some val \<Rightarrow> val | None \<Rightarrow> ''{{'' @ w @ ''}}'') @ substituteMatches vars t
      | None \<Rightarrow> c # substituteMatches vars cs)"
  by pat_completeness auto
termination
  by (relation "measure (\<lambda>(vars, s). length s)") (auto dest: varAt_shorter)

definition substituteVariables :: "string \<Rightarrow> Environment \<Rightarrow> string \<Rightarrow> string" where
  "substituteVariables text env name =
     (case env name of None \<Rightarrow> text | Some vars \<Rightarrow> substituteMatches vars text)"

record old_state =
  old_items :: "Item list"
  old_item :: Item
  old_req :: Request
  old_headers :: "Header list"
  old_body :: Body
  old_url :: URL
  old_query :: "QueryParam list"
  old_data :: string
  old_count :: nat
  old_startedJSON :: bool

definition old_initState :: old_state where
  "old_initState =
     \<lparr>old_items = [], old_item = emptyItem, old_req = emptyRequest, old_headers = [],
      old_body = emptyBody, old_url = emptyURL, old_query = [], old_data = [], old_count = 0,
      old_startedJSON = False\<rparr>"

text \<open>The URL of a method line, as this revision decomposes it in place.\<close>

definition old_parseURL :: "string \<Rightarrow> URL \<Rightarrow> URL" where
  "old_parseURL rawURL u =
     (if strings_Contains rawURL ''://'' then
        (let protocolParts = strings_Split rawURL ''://'';
             url1 = u\<lparr>url_Protocol := protocolParts ! 0\<rparr>;
             cleanURL = (if strings_Contains (protocolParts ! 1) ''?''
                         then hd (strings_Split (protocolParts ! 1) ''?'')
                         else protocolParts ! 1)
         in if strings_Contains cleanURL ''/'' then
              (let urlParts = strings_Split cleanURL ''/'';
                   url2 = url1\<lparr>url_Host := strings_Split (urlParts ! 0) ''.''\<rparr>
               in if length urlParts > 1 then url2\<lparr>url_Path := tl urlParts\<rparr> else url2)
            else url1\<lparr>url_Host := strings_Split cleanURL ''.''\<rparr>)
      else
        (let urlParts = strings_Split rawURL ''/''
         in if length urlParts > 0 then u\<lparr>url_Host := strings_Split (urlParts ! 0) ''.''\<rparr>
            else u))"

text \<open>The separator line of this revision: three hash signs and not four.\<close>

definition old_isSeparator :: "string \<Rightarrow> bool" where
  "old_isSeparator line = (strings_HasPrefix line ''###'' \<and> \<not> strings_HasPrefix line ''####'')"

definition strings_TrimPrefix :: "string \<Rightarrow> string \<Rightarrow> string" where
  "strings_TrimPrefix s p = (if strings_HasPrefix s p then drop (length p) s else s)"

text \<open>The request is stored when method and URL are set (lines 858 to 865, 1020 to 1027).\<close>

definition old_seal :: "old_state \<Rightarrow> old_state" where
  "old_seal st =
     (if req_Method (old_req st) \<noteq> [] \<and> url_Raw (old_url st) \<noteq> [] then
        (let req1 = (old_req st)\<lparr>req_Header := old_headers st, req_Body := old_body st,
                                  req_URL := (old_url st)\<lparr>url_Query := old_query st\<rparr>\<rparr>;
             item1 = Item (item_Name (old_item st)) (item_Description (old_item st))
                          (item_Item (old_item st)) req1
         in st\<lparr>old_req := req1, old_item := item1, old_items := old_items st @ [item1]\<rparr>)
      else st)"

definition old_onSeparator :: "old_state \<Rightarrow> string \<Rightarrow> old_state" where
  "old_onSeparator st line =
     (let st1 = (old_seal st)\<lparr>old_item := emptyItem, old_req := emptyRequest, old_headers := [],
                               old_body := emptyBody, old_url := emptyURL, old_query := [],
                               old_data := [], old_startedJSON := False\<rparr>;
          requestName = strings_TrimSpace (strings_TrimPrefix line ''###'')
      in if requestName = []
         then st1\<lparr>old_count := old_count st1 + 1,
                  old_item := Item (''request-'' @ showNat (old_count st1 + 1)) [] [] emptyRequest\<rparr>
         else st1\<lparr>old_item := Item requestName [] [] emptyRequest\<rparr>)"

definition old_onMethod :: "Environment \<Rightarrow> old_state \<Rightarrow> string \<Rightarrow> old_state" where
  "old_onMethod env st line =
     (let parts = strings_Fields line in
      if length parts \<ge> 2 then
        (let rawURL = substituteVariables (parts ! 1) env envName;
             unnamed = (item_Name (old_item st) = []);
             count1 = (if unnamed then old_count st + 1 else old_count st);
             item1 = (if unnamed
                      then Item (''request-'' @ showNat count1) (item_Description (old_item st))
                                (item_Item (old_item st)) (item_Request (old_item st))
                      else old_item st)
         in st\<lparr>old_req := (old_req st)\<lparr>req_Method := parts ! 0\<rparr>,
               old_url := old_parseURL rawURL ((old_url st)\<lparr>url_Raw := rawURL\<rparr>),
               old_count := count1, old_item := item1,
               old_query := parseQuery rawURL (old_query st)\<rparr>)
      else st)"

definition old_onBodyStart :: "Environment \<Rightarrow> old_state \<Rightarrow> string \<Rightarrow> old_state" where
  "old_onBodyStart env st line =
     (let body1 = (old_body st)\<lparr>body_Mode := ''raw'', body_Options := jsonOptions\<rparr> in
      if strings_HasSuffix line ''}''
      then st\<lparr>old_body := body1\<lparr>body_Raw := substituteVariables (strings_TrimSpace line) env envName\<rparr>,
              old_startedJSON := False\<rparr>
      else st\<lparr>old_body := body1, old_startedJSON := True, old_data := old_data st @ line @ [newline]\<rparr>)"

definition old_onHeader :: "Environment \<Rightarrow> old_state \<Rightarrow> string \<Rightarrow> old_state" where
  "old_onHeader env st line =
     (let headerParts = strings_SplitN2 line (CHR '':'') in
      if length headerParts = 2 then
        st\<lparr>old_headers := old_headers st @
              [\<lparr>header_Key = strings_TrimSpace (headerParts ! 0),
                header_Value = substituteVariables (strings_TrimSpace (headerParts ! 1)) env envName,
                header_Type = ''text''\<rparr>]\<rparr>
      else st)"

definition old_onBodyEnd :: "Environment \<Rightarrow> old_state \<Rightarrow> string \<Rightarrow> old_state" where
  "old_onBodyEnd env st line =
     st\<lparr>old_data := old_data st @ line,
        old_body := (old_body st)\<lparr>body_Raw :=
                      substituteVariables (strings_TrimSpace (old_data st @ line)) env envName\<rparr>,
        old_startedJSON := False\<rparr>"

definition old_processLine :: "Environment \<Rightarrow> old_state \<Rightarrow> string \<Rightarrow> old_state" where
  "old_processLine env st text =
     (let line = strings_TrimSpace text in
      if line = [] \<or> strings_HasPrefix line ''# '' \<or> strings_HasPrefix line ''//'' then st
      else if old_isSeparator line then old_onSeparator st line
      else if httpMethodRegex line then old_onMethod env st line
      else if strings_HasPrefix line ''{'' then old_onBodyStart env st line
      else if strings_Contains line '':'' \<and> \<not> old_startedJSON st then old_onHeader env st line
      else if strings_Contains line '':'' \<and> old_startedJSON st
        then st\<lparr>old_data := old_data st @ line @ [newline]\<rparr>
      else if strings_HasSuffix line ''}'' \<and> old_startedJSON st then old_onBodyEnd env st line
      else if old_startedJSON st then st\<lparr>old_data := old_data st @ line @ [newline]\<rparr>
      else st)"

definition old_processLines :: "Environment \<Rightarrow> old_state \<Rightarrow> string list \<Rightarrow> old_state" where
  "old_processLines env st lines = foldl (old_processLine env) st lines"

text \<open>The items of the collection this revision writes.\<close>

definition old_convertedItems :: "Environment \<Rightarrow> string list \<Rightarrow> Item list" where
  "old_convertedItems env lines = old_items (old_seal (old_processLines env old_initState lines))"

section \<open>The cases before the body cases, and the inputs and states of the examples\<close>


text \<open>The input of \<^verbatim>\<open>TestPOSTRequestWithJSON\<close>, line by line.\<close>

definition jsonTestInput :: "string list" where
  \<open>jsonTestInput =
     [''POST https://api.example.com/users'',
      ''Content-Type: application/json'',
      '''',
      ''{'',
      ''  "name": "John Doe",'',
      ''  "email": "john@example.com"'',
      ''}'',
      '''',
      ''###'']\<close>

text \<open>Two declarations of local variables and no reference to a variable.\<close>

definition twoLocalsInput :: "string list" where
  "twoLocalsInput = [''@a = 1'', ''@b = 2'']"

text \<open>The state after one method line; inside a script block; inside a JSON body.\<close>

definition oneRequestState :: conv_state where
  "oneRequestState = processLine initState ''GET http://h/p''"

definition scriptState :: conv_state where
  "scriptState = processLines initState [''GET http://h/p'', ''< {%'']"


text \<open>A group with one request, closed by a separator, and a second group without requests.\<close>

definition groupedInput :: "string list" where
  "groupedInput = [''# @group_name Users'', ''GET http://h/users'', ''###'', ''# @group_name Empty'']"

text \<open>A request block with two method lines and a header line between them.\<close>

definition twoMethodsInput :: "string list" where
  "twoMethodsInput = [''GET http://h/a?x=1'', ''Accept: text/plain'', ''POST http://h/b?y=2'']"

text \<open>A request with two references to variables.\<close>

definition twoReferencesInput :: "string list" where
  "twoReferencesInput = [''GET http://h/users/{{id}}'', ''Authorization: Bearer {{token}}'']"

text \<open>A line that fills the buffer of the scanner.\<close>

definition longLine :: string where
  "longLine = replicate MaxScanTokenSize (CHR ''a'')"

section \<open>Lemmas about the string functions and the state\<close>









lemma script_flag_idem: "inRequestScript st \<Longrightarrow> st\<lparr>inRequestScript := True\<rparr> = st"
  by simp

lemma scanSetter_frame:
  "headers (scanSetter st line) = headers st" "body (scanSetter st line) = body st"
  "data (scanSetter st line) = data st" "startedJSON (scanSetter st line) = startedJSON st"
  by (simp_all add: scanSetter_def split: option.splits)

lemma sealLast_eq_sealOnSeparator: "sealLast st = sealOnSeparator st"
  by (cases "currentGroup st") (simp_all add: sealLast_def sealOnSeparator_def sealedRequest_def Let_def)

lemma processLine_bare_separator:
  "processLine st ''###'' = (if inRequestScript st then st else onSeparator st)"
  by (simp add: processLine_def strings_TrimSpace_def isSpace_def groupRegex_def nameRegex_def
      descriptionRegex_def localVariableRegex_def reSpace_def scanSetter_def setterAt_def
      requestSeparatorRegex_def newline_def Let_def)

lemma sealLast_onSeparator: "sealLast (onSeparator st) = onSeparator st"
  by (simp add: sealLast_def onSeparator_def resetRequest_def emptyRequest_def)

lemma assemble_onSeparator:
  "assemble (onSeparator st) allVariables env rangeOrder today = assemble st allVariables env rangeOrder today"
proof -
  have "hasGroupSeparators (onSeparator st) = hasGroupSeparators (sealLast st)"
    and "finalGroups (onSeparator st) = finalGroups (sealLast st)"
    and "allItems (onSeparator st) = allItems (sealLast st)"
    and "localVariables (onSeparator st) = localVariables (sealLast st)"
    by (simp_all add: sealLast_eq_sealOnSeparator onSeparator_def resetRequest_def finalGroups_def
        split: option.splits)
  then show ?thesis
    by (simp add: assemble_def Let_def sealLast_onSeparator)
qed


lemma twoLocals_table:
  "localVariables (processLines initState twoLocalsInput) = [''a'' \<mapsto> ''1'', ''b'' \<mapsto> ''2'']"
  by (simp add: twoLocalsInput_def processLines_def processLine_def initState_def
      strings_TrimSpace_def isSpace_def groupRegex_def nameRegex_def descriptionRegex_def
      localVariableRegex_def isWord_def reSpace_def re_spaces_capture_def newline_def)

lemma sealLast_localVariables: "localVariables (sealLast st) = localVariables st"
  by (simp add: sealLast_def Let_def)

lemma longLine_length: "length longLine = MaxScanTokenSize"
  by (simp add: longLine_def)

lemma scanner_complete:
  "\<not> scannerTooLong lines \<Longrightarrow> scannerLines lines = map dropCR lines"
proof -
  assume "\<not> scannerTooLong lines"
  then have "\<forall>l\<in>set lines. length l < MaxScanTokenSize"
    by (auto simp add: scannerTooLong_def list_ex_iff)
  then have "takeWhile (\<lambda>l. length l < MaxScanTokenSize) lines = lines"
    by (simp add: takeWhile_eq_all_conv)
  then show ?thesis
    unfolding scannerLines_def by (rule arg_cong)
qed

lemma scanner_twoLocals:
  "scannerLines twoLocalsInput = twoLocalsInput \<and> \<not> scannerTooLong twoLocalsInput"
  by (simp add: scannerLines_def scannerTooLong_def twoLocalsInput_def dropCR_def
      MaxScanTokenSize_def)

lemma scanner_twoReferences:
  "scannerLines twoReferencesInput = twoReferencesInput \<and> \<not> scannerTooLong twoReferencesInput"
  by (simp add: scannerLines_def scannerTooLong_def twoReferencesInput_def dropCR_def
      MaxScanTokenSize_def)

lemma scanner_jsonTest:
  "scannerLines jsonTestInput = jsonTestInput \<and> \<not> scannerTooLong jsonTestInput"
  by (simp add: scannerLines_def scannerTooLong_def jsonTestInput_def dropCR_def
      MaxScanTokenSize_def)

lemma scanner_grouped:
  "scannerLines groupedInput = groupedInput \<and> \<not> scannerTooLong groupedInput"
  by (simp add: scannerLines_def scannerTooLong_def groupedInput_def dropCR_def
      MaxScanTokenSize_def)

lemma convert_Inr_items:
  "convertHTTPToPostman lines envResult rangeOrder today = Inr doc \<Longrightarrow>
     coll_Items doc =
       collectionItems (hasGroupSeparators (sealLast (processLines initState (scannerLines lines))))
         (finalGroups (sealLast (processLines initState (scannerLines lines))))
         (allItems (sealLast (processLines initState (scannerLines lines))))"
  by (auto simp add: convertHTTPToPostman_def afterPrescan_def assemble_def Let_def
      split: sum.splits if_splits)

lemma convert_Inr_complete:
  "convertHTTPToPostman lines envResult rangeOrder today = Inr doc \<Longrightarrow> \<not> scannerTooLong lines"
  by (auto simp add: convertHTTPToPostman_def afterPrescan_def Let_def
      split: sum.splits if_splits)

lemma folders_pred:
  assumes "\<forall>f\<in>set acc. P f"
    and "\<And>g :: Group. filter validItem (group_Items g) \<noteq> [] \<Longrightarrow>
            P (Item (group_Name g) [] (filter validItem (group_Items g)) emptyRequest)"
  shows "\<forall>f\<in>set (foldl folderItem acc gs). P f"
  using assms(1)
proof (induction gs arbitrary: acc)
  case Nil
  then show ?case by simp
next
  case (Cons g gs)
  have "\<forall>f\<in>set (folderItem acc g). P f"
    using Cons.prems assms(2) [of g] by (auto simp add: folderItem_def Let_def)
  then show ?case
    using Cons.IH by simp
qed

lemma folders_valid:
  "\<forall>f\<in>set (foldl folderItem [] gs). item_Request f = emptyRequest \<and> item_Item f \<noteq> []
                  \<and> (\<forall>i\<in>set (item_Item f). validItem i)"
  by (rule folders_pred) auto

lemma HasPrefix_append: "strings_HasPrefix s p \<Longrightarrow> s = p @ drop (length p) s"
  by (induction s p rule: strings_HasPrefix.induct) auto

lemma reSpace_isSpace: "reSpace c \<Longrightarrow> isSpace c"
  by (auto simp add: reSpace_def isSpace_def)

lemma TrimSpace_last: "strings_TrimSpace text \<noteq> [] \<Longrightarrow> \<not> isSpace (last (strings_TrimSpace text))"
proof -
  let ?ys = "dropWhile isSpace (rev (dropWhile isSpace text))"
  assume "strings_TrimSpace text \<noteq> []"
  then have ne: "?ys \<noteq> []" by (simp add: strings_TrimSpace_def)
  then have "\<not> isSpace (hd ?ys)" by (rule hd_dropWhile)
  moreover have "last (rev ?ys) = hd ?ys" using ne by (simp add: last_rev)
  ultimately show ?thesis by (simp add: strings_TrimSpace_def)
qed

lemma fields_from_word:
  "\<forall>c\<in>set v. \<not> isSpace c \<Longrightarrow> fields_from acc (v @ s) = fields_from (rev v @ acc) s"
  by (induction v arbitrary: acc) auto

lemma fields_from_nonempty:
  "acc \<noteq> [] \<or> (\<exists>c\<in>set s. \<not> isSpace c) \<Longrightarrow> fields_from acc s \<noteq> []"
  by (induction s arbitrary: acc) auto

lemma fields_from_no_empty_field: "[] \<notin> set (fields_from acc s)"
  by (induction s arbitrary: acc) auto

lemma httpMethodRegex_verb:
  "httpMethodRegex line \<Longrightarrow>
     \<exists>v w r. v \<in> set httpVerbs \<and> reSpace w \<and> line = v @ w # r"
proof -
  assume "httpMethodRegex line"
  then obtain v where v: "v \<in> set httpVerbs" "strings_HasPrefix line v"
      "re_spaces_any (drop (length v) line)"
    by (auto simp add: httpMethodRegex_def list_ex_iff)
  let ?r = "drop (length v) line"
  from v(3) have "takeWhile reSpace ?r \<noteq> []"
    by (simp add: re_spaces_any_def Let_def)
  then obtain w r where w: "?r = w # r" "reSpace w"
    by (cases ?r) (auto split: if_splits)
  from HasPrefix_append [OF v(2)] w(1) have "line = v @ w # r" by simp
  with v(1) w(2) show ?thesis by blast
qed

lemma verb_no_space: "v \<in> set httpVerbs \<Longrightarrow> v \<noteq> [] \<and> (\<forall>c\<in>set v. \<not> isSpace c)"
  by (auto simp add: httpVerbs_def isSpace_def)

lemma method_line_fields:
  assumes "httpMethodRegex (strings_TrimSpace text)"
  shows "2 \<le> length (strings_Fields (strings_TrimSpace text))
         \<and> strings_Fields (strings_TrimSpace text) ! 0 \<in> set httpVerbs"
proof -
  let ?line = "strings_TrimSpace text"
  from httpMethodRegex_verb [OF assms] obtain v w r
    where v: "v \<in> set httpVerbs" and w: "reSpace w" and l: "?line = v @ w # r"
    by blast
  from l have ne: "?line \<noteq> []" by simp
  have last: "\<not> isSpace (last ?line)" using TrimSpace_last [OF ne] .
  have r: "r \<noteq> []"
  proof
    assume "r = []"
    with l have "last ?line = w" by simp
    with last w show False by (simp add: reSpace_isSpace)
  qed
  then have "last ?line = last r" using l by simp
  with last r have ex: "\<exists>c\<in>set r. \<not> isSpace c"
    by (metis last_in_set)
  have "strings_Fields ?line = fields_from (rev v) (w # r)"
    using verb_no_space [OF v] l by (simp add: strings_Fields_def fields_from_word)
  also have "\<dots> = v # fields_from [] r"
    using verb_no_space [OF v] w by (simp add: reSpace_isSpace)
  finally have f: "strings_Fields ?line = v # fields_from [] r" .
  from ex have "fields_from [] r \<noteq> []" by (simp add: fields_from_nonempty)
  with f v show ?thesis by (cases "fields_from [] r") auto
qed

lemma method_line_not_earlier:
  assumes "httpMethodRegex line"
  shows "line \<noteq> []" "groupRegex line = None" "nameRegex line = None"
    "descriptionRegex line = None" "localVariableRegex line = None"
    "strings_HasPrefix line ''<'' = False" "requestSeparatorRegex line = False"
    "strings_HasPrefix line ''#'' = False"
proof -
  from httpMethodRegex_verb [OF assms] obtain v w r
    where v: "v \<in> set httpVerbs" and l: "line = v @ w # r"
    by blast
  from v obtain c cs where c: "line = c # cs" "c \<in> set ''GPDO''"
    using l by (auto simp add: httpVerbs_def)
  from c show "line \<noteq> []" by simp
  from c show "groupRegex line = None" by (auto simp add: groupRegex_def)
  from c show "nameRegex line = None" by (auto simp add: nameRegex_def)
  from c show "descriptionRegex line = None" by (auto simp add: descriptionRegex_def)
  from c show "localVariableRegex line = None" by (auto simp add: localVariableRegex_def)
  from c show "strings_HasPrefix line ''<'' = False" by auto
  from c show "requestSeparatorRegex line = False" by (auto simp add: requestSeparatorRegex_def)
  from c show "strings_HasPrefix line ''#'' = False" by auto
qed

lemma processLine_method:
  "\<not> inRequestScript st \<Longrightarrow> httpMethodRegex (strings_TrimSpace text) \<Longrightarrow>
     processLine st text = onMethod st (strings_TrimSpace text)"
  by (simp add: processLine_def Let_def method_line_not_earlier)

lemma parseURL_Raw: "url_Raw (parseURL rawURL u locals rvars) = url_Raw u"
  by (simp add: parseURL_def Let_def)

lemma queryParam_append: "queryParam q p = q @ queryParam [] p"
  by (simp add: queryParam_def Let_def)

lemma foldl_queryParam_append: "foldl queryParam q ps = q @ foldl queryParam [] ps"
proof (induction ps rule: rev_induct)
  case Nil
  then show ?case by simp
next
  case (snoc p ps)
  have "foldl queryParam q (ps @ [p]) = queryParam (foldl queryParam q ps) p" by simp
  also have "\<dots> = foldl queryParam q ps @ queryParam [] p" by (rule queryParam_append)
  also have "\<dots> = q @ foldl queryParam [] ps @ queryParam [] p" using snoc by simp
  also have "\<dots> = q @ queryParam (foldl queryParam [] ps) p"
    using queryParam_append [of "foldl queryParam [] ps" p] by simp
  finally show ?case by simp
qed

lemma parseQuery_append: "parseQuery rawURL q = q @ parseQuery rawURL []"
  using foldl_queryParam_append [of q] by (simp add: parseQuery_def Let_def)

lemma onMethod_fields:
  assumes "2 \<le> length (strings_Fields l)"
  shows "req_Method (req (onMethod st l)) = strings_Fields l ! 0"
    and "url_Raw (url (onMethod st l)) = strings_Fields l ! 1"
    and "query (onMethod st l) = query st @ parseQuery (strings_Fields l ! 1) []"
proof -
  show "req_Method (req (onMethod st l)) = strings_Fields l ! 0"
    using assms by (simp add: onMethod_def Let_def)
  show "url_Raw (url (onMethod st l)) = strings_Fields l ! 1"
    using assms by (simp add: onMethod_def Let_def parseURL_Raw)
  have "query (onMethod st l) = parseQuery (strings_Fields l ! 1) (query st)"
    using assms by (simp add: onMethod_def Let_def)
  then show "query (onMethod st l) = query st @ parseQuery (strings_Fields l ! 1) []"
    using parseQuery_append [of "strings_Fields l ! 1" "query st"] by simp
qed

lemma sealLast_item:
  "req_Method (req st) \<noteq> [] \<Longrightarrow> url_Raw (url st) \<noteq> [] \<Longrightarrow>
     item_Request (item (sealLast st))
       = \<lparr>req_Method = req_Method (req st), req_Header = headers st, req_Body = body st,
          req_URL = (url st)\<lparr>url_Query := query st\<rparr>\<rparr>"
  by (simp add: sealLast_def Let_def)

lemma varAt_Some:
  assumes "varAt s = Some (w, t)"
  shows "s = ''{{'' @ w @ ''}}'' @ t \<and> w \<noteq> [] \<and> list_all isWord w"
proof -
  let ?r = "drop 2 s"
  from assms have p: "strings_HasPrefix s ''{{''"
    and w: "w = takeWhile isWord ?r" "w \<noteq> []"
    and q: "strings_HasPrefix (dropWhile isWord ?r) ''}}''"
    and t: "t = drop 2 (dropWhile isWord ?r)"
    by (auto simp add: varAt_def Let_def split: if_splits)
  have "s = ''{{'' @ ?r" using HasPrefix_append [OF p] by (simp add: numeral_2_eq_2)
  moreover have "?r = w @ dropWhile isWord ?r" using w(1) by simp
  moreover have "dropWhile isWord ?r = ''}}'' @ t"
    using HasPrefix_append [OF q] t by (simp add: numeral_2_eq_2)
  ultimately have "s = ''{{'' @ w @ ''}}'' @ t" by (metis append_assoc)
  moreover have "list_all isWord w"
    using w(1) by (auto simp add: list_all_iff dest: set_takeWhileD)
  ultimately show ?thesis using w(2) by blast
qed

lemma varAt_complete:
  assumes "w \<noteq> []" "list_all isWord w"
  shows "varAt (''{{'' @ w @ ''}}'' @ post) = Some (w, post)"
proof -
  have n: "\<not> isWord (CHR ''}'')" by (simp add: isWord_def)
  have "takeWhile isWord (w @ ''}}'' @ post) = w"
    using assms(2) n by (simp add: list_all_iff)
  moreover have "dropWhile isWord (w @ ''}}'' @ post) = ''}}'' @ post"
    using assms(2) n by (simp add: list_all_iff)
  ultimately show ?thesis
    using assms(1) by (simp add: varAt_def Let_def)
qed

lemma FindAll_nonempty_iff:
  "(varRegex_FindAll s \<noteq> []) =
     (\<exists>pre w post. s = pre @ ''{{'' @ w @ ''}}'' @ post \<and> w \<noteq> [] \<and> list_all isWord w)"
proof
  show "varRegex_FindAll s \<noteq> [] \<Longrightarrow>
     \<exists>pre w post. s = pre @ ''{{'' @ w @ ''}}'' @ post \<and> w \<noteq> [] \<and> list_all isWord w"
  proof (induction s)
    case Nil
    then show ?case by simp
  next
    case (Cons c cs)
    show ?case
    proof (cases "varAt (c # cs)")
      case None
      with Cons.prems have "varRegex_FindAll cs \<noteq> []" by simp
      from Cons.IH [OF this] obtain pre w post
        where "cs = pre @ ''{{'' @ w @ ''}}'' @ post" "w \<noteq> []" "list_all isWord w"
        by blast
      then have "c # cs = (c # pre) @ ''{{'' @ w @ ''}}'' @ post \<and> w \<noteq> [] \<and> list_all isWord w"
        by simp
      then show ?thesis by blast
    next
      case (Some a)
      obtain w t where "a = (w, t)" by (cases a)
      with Some varAt_Some [of "c # cs" w t]
      have "c # cs = [] @ ''{{'' @ w @ ''}}'' @ t \<and> w \<noteq> [] \<and> list_all isWord w"
        by simp
      then show ?thesis by blast
    qed
  qed
next
  assume "\<exists>pre w post. s = pre @ ''{{'' @ w @ ''}}'' @ post \<and> w \<noteq> [] \<and> list_all isWord w"
  then obtain pre w post
    where s: "s = pre @ ''{{'' @ w @ ''}}'' @ post" and w: "w \<noteq> []" "list_all isWord w"
    by blast
  have "varRegex_FindAll (pre @ ''{{'' @ w @ ''}}'' @ post) \<noteq> []"
  proof (induction pre)
    case Nil
    have "varRegex_FindAll (''{{'' @ w @ ''}}'' @ post) = w # varRegex_FindAll post"
      using varAt_complete [OF w, of post] by simp
    then show ?case by simp
  next
    case (Cons c pre)
    then show ?case
      by (cases "varAt (c # pre @ ''{{'' @ w @ ''}}'' @ post)") auto
  qed
  with s show "varRegex_FindAll s \<noteq> []" by simp
qed

lemma FindAll_names_referenced:
  "name \<in> set (varRegex_FindAll s) \<Longrightarrow> \<exists>pre post. s = pre @ ''{{'' @ name @ ''}}'' @ post"
proof (induction s arbitrary: name rule: varRegex_FindAll.induct)
  case 1
  then show ?case by simp
next
  case (2 c cs)
  show ?case
  proof (cases "varAt (c # cs)")
    case None
    with "2.prems" have "name \<in> set (varRegex_FindAll cs)" by simp
    from "2.IH"(1) [OF None this] obtain pre post
      where "cs = pre @ ''{{'' @ name @ ''}}'' @ post" by blast
    then have "c # cs = (c # pre) @ ''{{'' @ name @ ''}}'' @ post" by simp
    then show ?thesis by blast
  next
    case (Some a)
    obtain w t where a: "a = (w, t)" by (cases a)
    from Some a have v: "varAt (c # cs) = Some (w, t)" by simp
    from varAt_Some [OF v] have s: "c # cs = ''{{'' @ w @ ''}}'' @ t" by simp
    from v "2.prems" have "name = w \<or> name \<in> set (varRegex_FindAll t)" by auto
    then show ?thesis
    proof
      assume "name = w"
      with s have "c # cs = [] @ ''{{'' @ name @ ''}}'' @ t" by simp
      then show ?thesis by blast
    next
      assume "name \<in> set (varRegex_FindAll t)"
      from "2.IH"(2) [OF Some a [symmetric] this] obtain pre post
        where "t = pre @ ''{{'' @ name @ ''}}'' @ post" by blast
      with s have "c # cs = (''{{'' @ w @ ''}}'' @ pre) @ ''{{'' @ name @ ''}}'' @ post" by simp
      then show ?thesis by blast
    qed
  qed
qed

lemma separator_not_earlier:
  assumes "requestSeparatorRegex line"
  shows "line \<noteq> []" "groupRegex line = None" "nameRegex line = None"
    "descriptionRegex line = None" "localVariableRegex line = None"
    "strings_HasPrefix line ''<'' = False"
proof -
  from assms have "strings_HasPrefix line ''###''"
    by (simp add: requestSeparatorRegex_def)
  from HasPrefix_append [OF this] obtain r where l: "line = ''###'' @ r"
    by blast
  have n: "\<not> reSpace (CHR ''#'')" by (simp add: reSpace_def)
  from l show "line \<noteq> []" by simp
  from l n show "groupRegex line = None" by (simp add: groupRegex_def)
  from l n show "nameRegex line = None" by (simp add: nameRegex_def)
  from l show "descriptionRegex line = None" by (simp add: descriptionRegex_def)
  from l show "localVariableRegex line = None" by (simp add: localVariableRegex_def)
  from l show "strings_HasPrefix line ''<'' = False" by simp
qed

lemma processLine_separator:
  "\<not> inRequestScript st \<Longrightarrow> requestSeparatorRegex (strings_TrimSpace text) \<Longrightarrow>
     processLine st text = onSeparator st"
  by (simp add: processLine_def Let_def separator_not_earlier)

lemma old_processLine_keeps_name:
  "item_Name (old_item st) \<noteq> [] \<Longrightarrow> \<not> old_isSeparator (strings_TrimSpace text) \<Longrightarrow>
     old_item (old_processLine env st text) = old_item st"
  by (simp add: old_processLine_def Let_def old_onMethod_def old_onBodyStart_def
      old_onHeader_def old_onBodyEnd_def)

lemma old_processLines_keeps_name:
  "item_Name (old_item st) \<noteq> [] \<Longrightarrow> \<forall>l\<in>set ls. \<not> old_isSeparator (strings_TrimSpace l) \<Longrightarrow>
     old_item (old_processLines env st ls) = old_item st"
proof (induction ls arbitrary: st)
  case Nil
  then show ?case by (simp add: old_processLines_def)
next
  case (Cons l ls)
  have k: "old_item (old_processLine env st l) = old_item st"
    using Cons.prems by (simp add: old_processLine_keeps_name)
  have "old_item (old_processLines env (old_processLine env st l) ls)
          = old_item (old_processLine env st l)"
    using Cons.prems k by (intro Cons.IH) simp_all
  with k show ?case by (simp add: old_processLines_def)
qed

lemma old_separator_item:
  "old_isSeparator (strings_TrimSpace text) \<Longrightarrow>
     old_item (old_processLine env st text)
       = Item (if strings_TrimSpace (strings_TrimPrefix (strings_TrimSpace text) ''###'') \<noteq> []
               then strings_TrimSpace (strings_TrimPrefix (strings_TrimSpace text) ''###'')
               else ''request-'' @ showNat (old_count st + 1)) [] [] emptyRequest"
proof -
  assume s: "old_isSeparator (strings_TrimSpace text)"
  then have p: "strings_HasPrefix (strings_TrimSpace text) ''###''"
    by (simp add: old_isSeparator_def)
  from HasPrefix_append [OF p] obtain r where l: "strings_TrimSpace text = ''###'' @ r"
    by blast
  have c: "old_count (old_seal st) = old_count st"
    by (simp add: old_seal_def Let_def)
  from l have "old_processLine env st text = old_onSeparator st (strings_TrimSpace text)"
    using s by (simp add: old_processLine_def Let_def)
  then show ?thesis
    by (simp add: old_onSeparator_def Let_def c)
qed

lemma processLine_rule:
  assumes "P st"
    and "\<And>g. P (onGroup st g)"
    and "\<And>n. P (st\<lparr>currentRequestName := n\<rparr>)"
    and "\<And>d. P (st\<lparr>currentRequestDescription := d\<rparr>)"
    and "\<And>k v. P (st\<lparr>localVariables := (localVariables st)(k \<mapsto> v)\<rparr>)"
    and "\<And>b. P (scanSetter (st\<lparr>inRequestScript := b\<rparr>) (strings_TrimSpace text))"
    and "P (scanSetter st (strings_TrimSpace text))"
    and "requestSeparatorRegex (strings_TrimSpace text) \<Longrightarrow> P (onSeparator st)"
    and "httpMethodRegex (strings_TrimSpace text) \<Longrightarrow> P (onMethod st (strings_TrimSpace text))"
    and "P (onBodyStart st (strings_TrimSpace text))"
    and "\<not> startedJSON st \<Longrightarrow> P (onHeader st (strings_TrimSpace text))"
    and "startedJSON st \<Longrightarrow> P (st\<lparr>data := data st @ strings_TrimSpace text @ [newline]\<rparr>)"
    and "startedJSON st \<Longrightarrow> P (onBodyEnd st (strings_TrimSpace text))"
  shows "P (processLine st text)"
  unfolding processLine_def Let_def using assms by (auto split: option.splits)

lemma scanSetter_query: "query (scanSetter st line) = query st"
  by (simp add: scanSetter_def split: option.splits)

lemma processLine_query:
  assumes "\<not> requestSeparatorRegex (strings_TrimSpace text)"
    and "\<not> httpMethodRegex (strings_TrimSpace text)"
  shows "query (processLine st text) = query st"
  using assms
  by (intro processLine_rule [where P = "\<lambda>s. query s = query st"])
     (simp_all add: onGroup_def scanSetter_query onBodyStart_def onHeader_def onBodyEnd_def Let_def)

lemma processLines_query:
  "\<forall>l\<in>set ls. \<not> requestSeparatorRegex (strings_TrimSpace l) \<and> \<not> httpMethodRegex (strings_TrimSpace l)
     \<Longrightarrow> query (processLines st ls) = query st"
proof (induction ls arbitrary: st)
  case Nil
  then show ?case by (simp add: processLines_def)
next
  case (Cons l ls)
  have "query (processLines (processLine st l) ls) = query (processLine st l)"
    using Cons.prems by (intro Cons.IH) simp
  also have "\<dots> = query st"
    using Cons.prems by (simp add: processLine_query)
  finally show ?case by (simp add: processLines_def)
qed

lemma scanSetter_groups:
  "hasGroupSeparators (scanSetter st line) = hasGroupSeparators st"
  "currentGroup (scanSetter st line) = currentGroup st"
  by (simp_all add: scanSetter_def split: option.splits)

lemma processLine_group_flag:
  assumes "hasGroupSeparators st = (currentGroup st \<noteq> None)"
  shows "hasGroupSeparators (processLine st text) = (currentGroup (processLine st text) \<noteq> None)"
  using assms
  by (intro processLine_rule [where P = "\<lambda>s. hasGroupSeparators s = (currentGroup s \<noteq> None)"])
     (auto simp add: onGroup_def scanSetter_groups onSeparator_def resetRequest_def
        sealOnSeparator_def onMethod_def onBodyStart_def onHeader_def onBodyEnd_def Let_def
        split: option.splits)

lemma processLines_group_flag:
  "hasGroupSeparators st = (currentGroup st \<noteq> None) \<Longrightarrow>
     hasGroupSeparators (processLines st ls) = (currentGroup (processLines st ls) \<noteq> None)"
proof (induction ls arbitrary: st)
  case Nil
  then show ?case by (simp add: processLines_def)
next
  case (Cons l ls)
  have "hasGroupSeparators (processLines (processLine st l) ls)
          = (currentGroup (processLines (processLine st l) ls) \<noteq> None)"
    using Cons.prems by (intro Cons.IH processLine_group_flag)
  then show ?case by (simp add: processLines_def)
qed

lemma sealLast_document_items:
  assumes m: "req_Method (req st) \<noteq> [] \<and> url_Raw (url st) \<noteq> []"
    and inv: "hasGroupSeparators st = (currentGroup st \<noteq> None)"
    and sealed: "sealed =
             Item (if currentRequestName st \<noteq> [] then currentRequestName st
                   else ''request-'' @ showNat (count st + 1))
                  (if currentRequestDescription st \<noteq> [] then currentRequestDescription st
                   else item_Description (item st))
                  (item_Item (item st))
                  \<lparr>req_Method = req_Method (req st), req_Header = headers st, req_Body = body st,
                   req_URL = (url st)\<lparr>url_Query := query st\<rparr>\<rparr>"
  shows "coll_Items (assemble st allVariables env rangeOrder today) =
           (case currentGroup st of
              None \<Rightarrow> filter validItem (allItems st) @ [sealed]
            | Some g \<Rightarrow> foldl folderItem [] (groups st)
                         @ [Item (group_Name g) [] (filter validItem (group_Items g) @ [sealed])
                              emptyRequest])"
proof (cases "currentGroup st")
  case None
  with inv have f: "\<not> hasGroupSeparators st" by simp
  have v: "validItem sealed" using m sealed by (simp add: validItem_def)
  have "allItems (sealLast st) = allItems st @ [sealed]" "\<not> hasGroupSeparators (sealLast st)"
    using m f None sealed by (simp_all add: sealLast_def Let_def)
  then show ?thesis
    using None v by (simp add: assemble_def Let_def collectionItems_def)
next
  case (Some g)
  with inv have f: "hasGroupSeparators st" by simp
  have v: "validItem sealed" using m sealed by (simp add: validItem_def)
  have c: "currentGroup (sealLast st) = Some (g\<lparr>group_Items := group_Items g @ [sealed]\<rparr>)"
    and h: "hasGroupSeparators (sealLast st)" and gr: "groups (sealLast st) = groups st"
    using m f Some sealed by (simp_all add: sealLast_def Let_def)
  have "finalGroups (sealLast st) = groups st @ [g\<lparr>group_Items := group_Items g @ [sealed]\<rparr>]"
    using c gr by (simp add: finalGroups_def)
  then have "coll_Items (assemble st allVariables env rangeOrder today)
               = folderItem (foldl folderItem [] (groups st))
                   (g\<lparr>group_Items := group_Items g @ [sealed]\<rparr>)"
    using h by (simp add: assemble_def Let_def collectionItems_def)
  then show ?thesis
    using Some v by (simp add: folderItem_def Let_def)
qed

section \<open>C1: the raw text of a multi-line JSON body\<close>

text \<open>
  C1. On the input of \<^verbatim>\<open>TestPOSTRequestWithJSON\<close> the raw body of the one sealed
  request keeps the line breaks, but every line of the body has lost its indentation:
  the loop trims each line it reads, not only the first and the last line of the body.
  The test expects the indented text.
\<close>

theorem multi_line_body_loses_indentation:
  \<open>map (\<lambda>i. body_Raw (req_Body (item_Request i))) (allItems (processLines initState jsonTestInput))
     = [''{'' @ [newline] @ ''"name": "John Doe",'' @ [newline]
          @ ''"email": "john@example.com"'' @ [newline] @ ''}'']
   \<and> map (\<lambda>i. body_Raw (req_Body (item_Request i))) (allItems (processLines initState jsonTestInput))
     \<noteq> [''{'' @ [newline] @ ''  "name": "John Doe",'' @ [newline]
          @ ''  "email": "john@example.com"'' @ [newline] @ ''}'']\<close>
  by code_simp

section \<open>C2: variables without an environment\<close>

text \<open>
  C2, as amended. When the scanner reads every line of the input (no line has
  \<^verbatim>\<open>MaxScanTokenSize\<close> bytes or more), the conversion returns an error exactly when the
  text of the input holds a variable reference (two opening braces, a non-empty word,
  two closing braces) and the environment could not be loaded. The error then carries
  the detected names, each of which is referenced in the text, and the error of the
  loader; no document is produced. When no reference is detected, a document is
  produced whatever the loader returned, and a failed load gives the same document as
  an empty environment. When a line of the input has \<^verbatim>\<open>MaxScanTokenSize\<close> bytes or more,
  the conversion returns an error and no document, whatever the loader returned.
\<close>

theorem error_iff_variables_and_no_environment_when_scanned:
  "(\<not> scannerTooLong lines \<longrightarrow>
      ((\<exists>err. convertHTTPToPostman lines envResult rangeOrder today = Inl err)
         = ((\<exists>pre w post. fileContent (map dropCR lines) = pre @ ''{{'' @ w @ ''}}'' @ post
                           \<and> w \<noteq> [] \<and> list_all isWord w)
            \<and> (\<exists>envErr. envResult = Inl envErr)))
      \<and> (\<forall>err. convertHTTPToPostman lines envResult rangeOrder today = Inl err \<longrightarrow>
             (\<exists>envErr. envResult = Inl envErr
                \<and> err = VariablesWithoutEnvironment
                          (detectVariables (fileContent (map dropCR lines))) envErr)
             \<and> detectVariables (fileContent (map dropCR lines)) \<noteq> []
             \<and> (\<forall>name\<in>set (detectVariables (fileContent (map dropCR lines))).
                   \<exists>pre post. fileContent (map dropCR lines) = pre @ ''{{'' @ name @ ''}}'' @ post))
      \<and> (detectVariables (fileContent (map dropCR lines)) = [] \<longrightarrow>
             (\<exists>doc. convertHTTPToPostman lines envResult rangeOrder today = Inr doc)
             \<and> convertHTTPToPostman lines (Inl envErr0) rangeOrder today
                 = convertHTTPToPostman lines (Inr Map.empty) rangeOrder today))
   \<and> (scannerTooLong lines \<longrightarrow>
        (\<exists>err. convertHTTPToPostman lines envResult rangeOrder today = Inl err))"
proof (intro conjI allI impI)
  assume "\<not> scannerTooLong lines"
  then have c: "convertHTTPToPostman lines envResult rangeOrder today =
     (case envResult of
        Inl envErr \<Rightarrow>
          if detectVariables (fileContent (map dropCR lines)) \<noteq> []
          then Inl (VariablesWithoutEnvironment (detectVariables (fileContent (map dropCR lines))) envErr)
          else Inr (assemble (processLines initState (map dropCR lines))
                      (detectVariables (fileContent (map dropCR lines))) Map.empty rangeOrder today)
      | Inr env \<Rightarrow>
          Inr (assemble (processLines initState (map dropCR lines))
                 (detectVariables (fileContent (map dropCR lines))) env rangeOrder today))"
    by (simp add: convertHTTPToPostman_def afterPrescan_def scanner_complete Let_def
        split: sum.splits)
  show "(\<exists>err. convertHTTPToPostman lines envResult rangeOrder today = Inl err)
      = ((\<exists>pre w post. fileContent (map dropCR lines) = pre @ ''{{'' @ w @ ''}}'' @ post
                        \<and> w \<noteq> [] \<and> list_all isWord w)
         \<and> (\<exists>envErr. envResult = Inl envErr))"
    unfolding FindAll_nonempty_iff [symmetric] c
    by (cases envResult) (auto simp add: detectVariables_def)
next
  fix err
  assume n: "\<not> scannerTooLong lines"
  assume e: "convertHTTPToPostman lines envResult rangeOrder today = Inl err"
  then show "\<exists>envErr. envResult = Inl envErr
             \<and> err = VariablesWithoutEnvironment
                       (detectVariables (fileContent (map dropCR lines))) envErr"
    using n by (cases envResult)
      (auto simp add: convertHTTPToPostman_def afterPrescan_def scanner_complete Let_def
        split: if_splits)
  from e n show "detectVariables (fileContent (map dropCR lines)) \<noteq> []"
    by (cases envResult)
      (auto simp add: convertHTTPToPostman_def afterPrescan_def scanner_complete Let_def
        split: if_splits)
  show "\<forall>name\<in>set (detectVariables (fileContent (map dropCR lines))).
                \<exists>pre post. fileContent (map dropCR lines) = pre @ ''{{'' @ name @ ''}}'' @ post"
    unfolding detectVariables_def by (intro ballI) (rule FindAll_names_referenced)
next
  assume "\<not> scannerTooLong lines" "detectVariables (fileContent (map dropCR lines)) = []"
  then show "\<exists>doc. convertHTTPToPostman lines envResult rangeOrder today = Inr doc"
    by (cases envResult)
      (simp_all add: convertHTTPToPostman_def afterPrescan_def scanner_complete Let_def)
next
  assume "\<not> scannerTooLong lines" "detectVariables (fileContent (map dropCR lines)) = []"
  then show "convertHTTPToPostman lines (Inl envErr0) rangeOrder today
              = convertHTTPToPostman lines (Inr Map.empty) rangeOrder today"
    by (simp add: convertHTTPToPostman_def afterPrescan_def scanner_complete Let_def)
next
  assume "scannerTooLong lines"
  then show "\<exists>err. convertHTTPToPostman lines envResult rangeOrder today = Inl err"
    by (cases envResult)
      (simp_all add: convertHTTPToPostman_def afterPrescan_def Let_def)
qed

text \<open>
  C2 as stated fails on an input with a line that the scanner cannot read. The first
  line below fills the buffer of the scanner, so the first pass stops before the second
  line and detects no reference, although the text of the file holds the reference to
  \<^verbatim>\<open>id\<close>. With the environment missing, the conversion is not stopped by the check of
  the variables; the second pass fails at the long line and the error returned is the
  one of the scanner, which names no variable. And with the environment loaded and no
  reference in the file, the same long line still gives an error and no document.
\<close>

theorem long_line_hides_reference_and_fails:
  "fileContent [longLine, ''GET http://h/{{id}}'']
     = (longLine @ [newline] @ ''GET http://h/'') @ ''{{'' @ ''id'' @ ''}}'' @ [newline]
   \<and> convertHTTPToPostman [longLine, ''GET http://h/{{id}}'']
        (Inl (EnvReadError ''no such file'')) [] ''20240101120000'' = Inl ErrTooLong
   \<and> (\<forall>names envErr. ErrTooLong \<noteq> VariablesWithoutEnvironment names envErr)
   \<and> convertHTTPToPostman [longLine] (Inr Map.empty) [] ''20240101120000'' = Inl ErrTooLong"
proof -
  have s: "scannerLines [longLine, ''GET http://h/{{id}}''] = []"
    "scannerTooLong [longLine, ''GET http://h/{{id}}'']"
    "scannerLines [longLine] = []" "scannerTooLong [longLine]"
    by (simp_all add: scannerLines_def scannerTooLong_def longLine_length)
  have "fileContent [longLine, ''GET http://h/{{id}}'']
     = (longLine @ [newline] @ ''GET http://h/'') @ ''{{'' @ ''id'' @ ''}}'' @ [newline]"
    by (simp add: fileContent_def)
  moreover have "convertHTTPToPostman [longLine, ''GET http://h/{{id}}'']
        (Inl (EnvReadError ''no such file'')) [] ''20240101120000'' = Inl ErrTooLong"
    by (simp add: convertHTTPToPostman_def afterPrescan_def s fileContent_def detectVariables_def)
  moreover have "convertHTTPToPostman [longLine] (Inr Map.empty) [] ''20240101120000'' = Inl ErrTooLong"
    by (simp add: convertHTTPToPostman_def afterPrescan_def s)
  ultimately show ?thesis by simp
qed

text \<open>
  C2 on an input with two references and no environment, on an input without
  references, and on an input with a line that the scanner cannot read.
\<close>

theorem error_iff_variables_and_no_environment_when_scanned_witness:
  "\<not> scannerTooLong twoReferencesInput
   \<and> convertHTTPToPostman twoReferencesInput
       (Inl (EnvReadError ''no such file'')) [] ''20240101120000''
     = Inl (VariablesWithoutEnvironment [''id'', ''token''] (EnvReadError ''no such file''))
   \<and> \<not> scannerTooLong twoLocalsInput
   \<and> detectVariables (fileContent (map dropCR twoLocalsInput)) = []
   \<and> convertHTTPToPostman twoLocalsInput (Inl (EnvReadError ''no such file'')) [] ''20240101120000''
       = convertHTTPToPostman twoLocalsInput (Inr Map.empty) [] ''20240101120000''
   \<and> scannerTooLong [longLine]
   \<and> (\<exists>err. convertHTTPToPostman [longLine] (Inr Map.empty) [] ''20240101120000'' = Inl err)"
proof -
  have n1: "\<not> scannerTooLong twoReferencesInput"
    by (simp add: scanner_twoReferences)
  have n2: "\<not> scannerTooLong twoLocalsInput"
    by (simp add: scanner_twoLocals)
  have m1: "map dropCR twoReferencesInput = twoReferencesInput"
    using scanner_complete [OF n1] by (simp add: scanner_twoReferences)
  have m2: "map dropCR twoLocalsInput = twoLocalsInput"
    using scanner_complete [OF n2] by (simp add: scanner_twoLocals)
  have t: "scannerTooLong [longLine]"
    by (simp add: scannerTooLong_def longLine_length)
  have v: "detectVariables (fileContent twoReferencesInput) = [''id'', ''token'']"
    by code_simp
  have "\<exists>err. convertHTTPToPostman twoReferencesInput
       (Inl (EnvReadError ''no such file'')) [] ''20240101120000'' = Inl err"
    by (simp add: convertHTTPToPostman_def scanner_twoReferences v)
  then obtain err where e: "convertHTTPToPostman twoReferencesInput
       (Inl (EnvReadError ''no such file'')) [] ''20240101120000'' = Inl err"
    by blast
  from error_iff_variables_and_no_environment_when_scanned
    [of twoReferencesInput "Inl (EnvReadError ''no such file'')" "[]" "''20240101120000''"
        "EnvReadError ''no such file''",
     THEN conjunct1, rule_format, OF n1, THEN conjunct2, THEN conjunct1, rule_format, OF e]
  have "err = VariablesWithoutEnvironment [''id'', ''token''] (EnvReadError ''no such file'')"
    using v by (simp add: m1)
  moreover have d: "detectVariables (fileContent (map dropCR twoLocalsInput)) = []"
    unfolding m2 by code_simp
  moreover from error_iff_variables_and_no_environment_when_scanned
    [of twoLocalsInput "Inl (EnvReadError ''no such file'')" "[]" "''20240101120000''"
        "EnvReadError ''no such file''",
     THEN conjunct1, rule_format, OF n2, THEN conjunct2, THEN conjunct2, rule_format, OF d]
  have "convertHTTPToPostman twoLocalsInput (Inl (EnvReadError ''no such file'')) [] ''20240101120000''
       = convertHTTPToPostman twoLocalsInput (Inr Map.empty) [] ''20240101120000''"
    by blast
  moreover from error_iff_variables_and_no_environment_when_scanned
    [of "[longLine]" "Inr Map.empty" "[]" "''20240101120000''" "EnvReadError ''no such file''",
     THEN conjunct2, rule_format, OF t]
  have "\<exists>err. convertHTTPToPostman [longLine] (Inr Map.empty) [] ''20240101120000'' = Inl err"
    by blast
  ultimately show ?thesis using e n1 n2 t by simp
qed

section \<open>C3: a line with a colon, in and out of a JSON body\<close>




section \<open>C4: the request left at the end of the input\<close>

text \<open>
  C4. At the end of the input the accumulators are sealed by the same function of the
  state as at a separator line. When the method and the raw URL are not empty, the item
  built from the accumulated method, headers, body, URL and query, with the pending name
  (or \<^verbatim>\<open>request-N\<close>) and description, is appended to the open group when groups are in
  use and to the flat list otherwise, and at the end of a run of the loop from the
  initial state it is the last item of the document (of its last folder when a group
  is open); when the method or the URL is empty the state is unchanged. A further bare
  separator line at the end changes nothing in the document.
\<close>

theorem end_of_input_seals_like_separator:
  "sealLast st = sealOnSeparator st
   \<and> (req_Method (req st) \<noteq> [] \<and> url_Raw (url st) \<noteq> [] \<longrightarrow>
        (\<exists>sealed. sealed =
             Item (if currentRequestName st \<noteq> [] then currentRequestName st
                   else ''request-'' @ showNat (count st + 1))
                  (if currentRequestDescription st \<noteq> [] then currentRequestDescription st
                   else item_Description (item st))
                  (item_Item (item st))
                  \<lparr>req_Method = req_Method (req st), req_Header = headers st, req_Body = body st,
                   req_URL = (url st)\<lparr>url_Query := query st\<rparr>\<rparr>
          \<and> (if hasGroupSeparators st \<and> currentGroup st \<noteq> None
              then map_option group_Items (currentGroup (sealLast st))
                     = map_option (\<lambda>g. group_Items g @ [sealed]) (currentGroup st)
                   \<and> allItems (sealLast st) = allItems st
              else allItems (sealLast st) = allItems st @ [sealed]
                   \<and> currentGroup (sealLast st) = currentGroup st)
          \<and> (st = processLines initState lines \<longrightarrow>
               coll_Items (assemble st allVariables env rangeOrder today) =
                 (case currentGroup st of
                    None \<Rightarrow> filter validItem (allItems st) @ [sealed]
                  | Some g \<Rightarrow> foldl folderItem [] (groups st)
                       @ [Item (group_Name g) [] (filter validItem (group_Items g) @ [sealed])
                            emptyRequest]))))
   \<and> (req_Method (req st) = [] \<or> url_Raw (url st) = [] \<longrightarrow> sealLast st = st)
   \<and> assemble (processLine st ''###'') allVariables env rangeOrder today
       = assemble st allVariables env rangeOrder today"
proof (intro conjI impI)
  show "sealLast st = sealOnSeparator st" by (rule sealLast_eq_sealOnSeparator)
next
  let ?sealed = "Item (if currentRequestName st \<noteq> [] then currentRequestName st
                   else ''request-'' @ showNat (count st + 1))
                  (if currentRequestDescription st \<noteq> [] then currentRequestDescription st
                   else item_Description (item st))
                  (item_Item (item st))
                  \<lparr>req_Method = req_Method (req st), req_Header = headers st, req_Body = body st,
                   req_URL = (url st)\<lparr>url_Query := query st\<rparr>\<rparr>"
  assume m: "req_Method (req st) \<noteq> [] \<and> url_Raw (url st) \<noteq> []"
  have a: "if hasGroupSeparators st \<and> currentGroup st \<noteq> None
              then map_option group_Items (currentGroup (sealLast st))
                     = map_option (\<lambda>g. group_Items g @ [?sealed]) (currentGroup st)
                   \<and> allItems (sealLast st) = allItems st
              else allItems (sealLast st) = allItems st @ [?sealed]
                   \<and> currentGroup (sealLast st) = currentGroup st"
    using m by (cases "currentGroup st") (auto simp add: sealLast_def Let_def)
  have b: "coll_Items (assemble st allVariables env rangeOrder today) =
                 (case currentGroup st of
                    None \<Rightarrow> filter validItem (allItems st) @ [?sealed]
                  | Some g \<Rightarrow> foldl folderItem [] (groups st)
                       @ [Item (group_Name g) [] (filter validItem (group_Items g) @ [?sealed])
                            emptyRequest])"
    if r: "st = processLines initState lines"
  proof -
    have "hasGroupSeparators (processLines initState lines)
            = (currentGroup (processLines initState lines) \<noteq> None)"
      by (rule processLines_group_flag) (simp add: initState_def)
    with r have "hasGroupSeparators st = (currentGroup st \<noteq> None)" by simp
    from sealLast_document_items [OF m this refl] show ?thesis .
  qed
  from a b show "\<exists>sealed. sealed = ?sealed
          \<and> (if hasGroupSeparators st \<and> currentGroup st \<noteq> None
              then map_option group_Items (currentGroup (sealLast st))
                     = map_option (\<lambda>g. group_Items g @ [sealed]) (currentGroup st)
                   \<and> allItems (sealLast st) = allItems st
              else allItems (sealLast st) = allItems st @ [sealed]
                   \<and> currentGroup (sealLast st) = currentGroup st)
          \<and> (st = processLines initState lines \<longrightarrow>
               coll_Items (assemble st allVariables env rangeOrder today) =
                 (case currentGroup st of
                    None \<Rightarrow> filter validItem (allItems st) @ [sealed]
                  | Some g \<Rightarrow> foldl folderItem [] (groups st)
                       @ [Item (group_Name g) [] (filter validItem (group_Items g) @ [sealed])
                            emptyRequest]))"
    by blast
next
  assume "req_Method (req st) = [] \<or> url_Raw (url st) = []"
  then show "sealLast st = st" by (auto simp add: sealLast_def)
next
  show "assemble (processLine st ''###'') allVariables env rangeOrder today
       = assemble st allVariables env rangeOrder today"
    by (simp add: processLine_bare_separator assemble_onSeparator)
qed

text \<open>C4 after one method line (sealed) and at the initial state (nothing to seal).\<close>

theorem end_of_input_seals_like_separator_witness:
  "req_Method (req oneRequestState) \<noteq> [] \<and> url_Raw (url oneRequestState) \<noteq> []
   \<and> oneRequestState = processLines initState [''GET http://h/p'']
   \<and> allItems (sealLast oneRequestState)
       = [Item ''request-1'' [] []
            \<lparr>req_Method = ''GET'', req_Header = [], req_Body = emptyBody,
             req_URL = \<lparr>url_Raw = ''http://h/p'', url_Protocol = ''http'', url_Host = [''h''],
                        url_Path = [''p''], url_Query = [], url_Variable = []\<rparr>\<rparr>]
   \<and> coll_Items (assemble oneRequestState [] Map.empty [] ''20240101120000'')
       = [Item ''request-1'' [] []
            \<lparr>req_Method = ''GET'', req_Header = [], req_Body = emptyBody,
             req_URL = \<lparr>url_Raw = ''http://h/p'', url_Protocol = ''http'', url_Host = [''h''],
                        url_Path = [''p''], url_Query = [], url_Variable = []\<rparr>\<rparr>]
   \<and> req_Method (req initState) = []
   \<and> sealLast initState = initState"
proof -
  have m: "req_Method (req oneRequestState) \<noteq> [] \<and> url_Raw (url oneRequestState) \<noteq> []"
    by code_simp
  have r: "oneRequestState = processLines initState [''GET http://h/p'']"
    by (simp add: oneRequestState_def processLines_def)
  have e: "req_Method (req initState) = [] \<or> url_Raw (url initState) = []"
    by code_simp
  have g: "\<not> hasGroupSeparators oneRequestState" "allItems oneRequestState = []"
          "currentRequestName oneRequestState = []" "count oneRequestState = 0"
          "currentRequestDescription oneRequestState = []" "item oneRequestState = emptyItem"
          "req_Method (req oneRequestState) = ''GET''" "headers oneRequestState = []"
          "body oneRequestState = emptyBody" "query oneRequestState = []"
          "currentGroup oneRequestState = None"
          "url oneRequestState = \<lparr>url_Raw = ''http://h/p'', url_Protocol = ''http'',
              url_Host = [''h''], url_Path = [''p''], url_Query = [], url_Variable = []\<rparr>"
    by code_simp+
  have n: "showNat (Suc 0) = ''1''"
    by code_simp
  note t = end_of_input_seals_like_separator
    [where st = oneRequestState and lines = "[''GET http://h/p'']" and allVariables = "[]"
       and env = Map.empty and rangeOrder = "[]" and today = "''20240101120000''"]
  from m t [THEN conjunct2, THEN conjunct1]
  have "allItems (sealLast oneRequestState)
       = [Item ''request-1'' [] []
            \<lparr>req_Method = ''GET'', req_Header = [], req_Body = emptyBody,
             req_URL = \<lparr>url_Raw = ''http://h/p'', url_Protocol = ''http'', url_Host = [''h''],
                        url_Path = [''p''], url_Query = [], url_Variable = []\<rparr>\<rparr>]"
    by (simp add: g n emptyItem_def)
  moreover from m r t [THEN conjunct2, THEN conjunct1]
  have "coll_Items (assemble oneRequestState [] Map.empty [] ''20240101120000'')
       = [Item ''request-1'' [] []
            \<lparr>req_Method = ''GET'', req_Header = [], req_Body = emptyBody,
             req_URL = \<lparr>url_Raw = ''http://h/p'', url_Protocol = ''http'', url_Host = [''h''],
                        url_Path = [''p''], url_Query = [], url_Variable = []\<rparr>\<rparr>]"
    by (simp add: g n emptyItem_def)
  moreover from e end_of_input_seals_like_separator [where st = initState,
      THEN conjunct2, THEN conjunct2, THEN conjunct1]
  have "sealLast initState = initState"
    by blast
  moreover have "req_Method (req initState) = []"
    by code_simp
  ultimately show ?thesis
    using m r by simp
qed

section \<open>C5: the query parameters of a method line\<close>

text \<open>
  C5. The query string \<^verbatim>\<open>page=1&limit=10&sort=name\<close> gives the three pairs in their order
  and a pair without \<^verbatim>\<open>=\<close> is skipped; but the pair \<^verbatim>\<open>a=b=c\<close> is cut at every \<^verbatim>\<open>=\<close> and
  only its first two pieces are kept, so its value is \<^verbatim>\<open>b\<close> and not \<^verbatim>\<open>b=c\<close>.
\<close>

theorem query_pair_cut_at_every_equals:
  "query (processLine initState ''GET http://h/p?page=1&limit=10&sort=name'')
     = [\<lparr>qp_Key = ''page'', qp_Value = ''1''\<rparr>, \<lparr>qp_Key = ''limit'', qp_Value = ''10''\<rparr>,
        \<lparr>qp_Key = ''sort'', qp_Value = ''name''\<rparr>]
   \<and> query (processLine initState ''GET http://h/p?a=b=c&flag&x=1'')
     = [\<lparr>qp_Key = ''a'', qp_Value = ''b''\<rparr>, \<lparr>qp_Key = ''x'', qp_Value = ''1''\<rparr>]"
  by code_simp

section \<open>C6: two runs on the same input\<close>

text \<open>
  C6. With two local variables that the text never references, both orders of the two
  keys are possible iterations of the map, and the two runs give different documents
  for the same input, environment and time stamp: the variable list is in the order of
  the iteration.
\<close>

theorem variable_order_follows_map_iteration:
  "validRangeOrder (localVariables (processLines initState twoLocalsInput)) [''a'', ''b'']
   \<and> validRangeOrder (localVariables (processLines initState twoLocalsInput)) [''b'', ''a'']
   \<and> convertHTTPToPostman twoLocalsInput (Inr Map.empty) [''a'', ''b''] ''20240101120000''
     \<noteq> convertHTTPToPostman twoLocalsInput (Inr Map.empty) [''b'', ''a''] ''20240101120000''"
proof -
  have v: "map var_Key (collectionVariables [] [''a'' \<mapsto> ''1'', ''b'' \<mapsto> ''2''] Map.empty [''a'', ''b''])
           \<noteq> map var_Key (collectionVariables [] [''a'' \<mapsto> ''1'', ''b'' \<mapsto> ''2''] Map.empty [''b'', ''a''])"
    by (simp add: collectionVariables_def undetectedLocal_def)
  have d: "detectVariables (fileContent twoLocalsInput) = []"
    by code_simp
  show ?thesis
    using v by (auto simp add: convertHTTPToPostman_def afterPrescan_def scanner_twoLocals d
        twoLocals_table validRangeOrder_def assemble_def Let_def sealLast_localVariables)
qed

section \<open>C7: the text after the separator marker, and generated names\<close>

text \<open>
  C7, as amended. In the converter with groups and annotations a separator line read
  outside a script block acts the same whatever follows the marker: it seals and
  resets, and leaves the pending name empty. A name annotation sets the pending name.
  A request sealed with a pending name gets that name; one sealed without gets
  \<^verbatim>\<open>request-N\<close>, where \<open>N\<close> is the counter of generated names plus one, and the counter
  moves on by one. In the earlier revision, which names requests on the separator
  line, the trimmed text after the marker is the name of the item under construction
  (\<^verbatim>\<open>request-N\<close> when there is no such text), it stays so over all lines up to the
  next separator, and the request sealed from them is stored under that name.
\<close>

theorem separator_text_and_request_names:
  "(\<not> inRequestScript st \<and> requestSeparatorRegex (strings_TrimSpace text) \<longrightarrow>
      processLine st text = onSeparator st \<and> currentRequestName (processLine st text) = [])
   \<and> (req_Method (req st) \<noteq> [] \<and> url_Raw (url st) \<noteq> [] \<longrightarrow>
        item_Name (item (sealOnSeparator st))
          = (if currentRequestName st \<noteq> [] then currentRequestName st
             else ''request-'' @ showNat (count st + 1))
        \<and> count (sealOnSeparator st)
          = (if currentRequestName st \<noteq> [] then count st else count st + 1))
   \<and> (old_isSeparator (strings_TrimSpace text)
       \<and> (\<forall>l\<in>set ls. \<not> old_isSeparator (strings_TrimSpace l)) \<longrightarrow>
        old_item (old_processLines env (old_processLine env ost text) ls)
          = Item (if strings_TrimSpace (strings_TrimPrefix (strings_TrimSpace text) ''###'') \<noteq> []
                  then strings_TrimSpace (strings_TrimPrefix (strings_TrimSpace text) ''###'')
                  else ''request-'' @ showNat (old_count ost + 1)) [] [] emptyRequest
        \<and> (req_Method (old_req (old_processLines env (old_processLine env ost text) ls)) \<noteq> []
           \<and> url_Raw (old_url (old_processLines env (old_processLine env ost text) ls)) \<noteq> [] \<longrightarrow>
             map item_Name (old_items (old_seal (old_processLines env (old_processLine env ost text) ls)))
               = map item_Name (old_items (old_processLines env (old_processLine env ost text) ls))
                 @ [if strings_TrimSpace (strings_TrimPrefix (strings_TrimSpace text) ''###'') \<noteq> []
                    then strings_TrimSpace (strings_TrimPrefix (strings_TrimSpace text) ''###'')
                    else ''request-'' @ showNat (old_count ost + 1)]))
   \<and> (groupRegex (strings_TrimSpace text) = None \<and> nameRegex (strings_TrimSpace text) = Some n \<longrightarrow>
        currentRequestName (processLine st text) = n)"
proof (intro conjI impI)
  assume a: "\<not> inRequestScript st \<and> requestSeparatorRegex (strings_TrimSpace text)"
  then show p: "processLine st text = onSeparator st"
    by (simp add: processLine_separator)
  show "currentRequestName (processLine st text) = []"
    unfolding p by (simp add: onSeparator_def resetRequest_def)
next
  assume "req_Method (req st) \<noteq> [] \<and> url_Raw (url st) \<noteq> []"
  then show "item_Name (item (sealOnSeparator st))
          = (if currentRequestName st \<noteq> [] then currentRequestName st
             else ''request-'' @ showNat (count st + 1))"
    and "count (sealOnSeparator st)
          = (if currentRequestName st \<noteq> [] then count st else count st + 1)"
    by (cases "currentGroup st"; simp add: sealOnSeparator_def Let_def)+
next
  let ?name = "if strings_TrimSpace (strings_TrimPrefix (strings_TrimSpace text) ''###'') \<noteq> []
                  then strings_TrimSpace (strings_TrimPrefix (strings_TrimSpace text) ''###'')
                  else ''request-'' @ showNat (old_count ost + 1)"
  let ?st1 = "old_processLines env (old_processLine env ost text) ls"
  assume a: "old_isSeparator (strings_TrimSpace text)
       \<and> (\<forall>l\<in>set ls. \<not> old_isSeparator (strings_TrimSpace l))"
  have s: "old_item (old_processLine env ost text) = Item ?name [] [] emptyRequest"
    using a by (simp add: old_separator_item)
  have ne: "item_Name (old_item (old_processLine env ost text)) \<noteq> []"
    unfolding s by simp
  have k: "old_item ?st1 = old_item (old_processLine env ost text)"
    using ne a by (intro old_processLines_keeps_name) simp_all
  show i: "old_item ?st1 = Item ?name [] [] emptyRequest"
    using k s by simp
  {
    assume "req_Method (old_req ?st1) \<noteq> [] \<and> url_Raw (old_url ?st1) \<noteq> []"
    then show "map item_Name (old_items (old_seal ?st1))
               = map item_Name (old_items ?st1) @ [?name]"
      using i by (simp add: old_seal_def Let_def)
  }
next
  assume a: "groupRegex (strings_TrimSpace text) = None \<and> nameRegex (strings_TrimSpace text) = Some n"
  then have "strings_TrimSpace text \<noteq> []"
    by (auto simp add: nameRegex_def)
  with a show "currentRequestName (processLine st text) = n"
    by (simp add: processLine_def Let_def)
qed

text \<open>
  C7 as stated fails in the converter with groups and annotations: after the line
  \<^verbatim>\<open>### Login\<close> the request of the block that follows is sealed as \<^verbatim>\<open>request-1\<close>.
\<close>

theorem separator_text_is_not_the_name:
  "requestSeparatorRegex (strings_TrimSpace ''### Login'')
   \<and> map item_Name (allItems (sealLast (processLines initState [''### Login'', ''GET http://h/login''])))
       = [''request-1'']"
  by code_simp

text \<open>C7 after one method line, and in the earlier revision at its initial state.\<close>

theorem separator_text_and_request_names_witness:
  "\<not> inRequestScript oneRequestState \<and> requestSeparatorRegex (strings_TrimSpace ''### Login'')
   \<and> currentRequestName (processLine oneRequestState ''### Login'') = []
   \<and> req_Method (req oneRequestState) \<noteq> [] \<and> url_Raw (url oneRequestState) \<noteq> []
   \<and> item_Name (item (sealOnSeparator oneRequestState)) = ''request-1''
   \<and> old_isSeparator (strings_TrimSpace ''### Login'')
   \<and> \<not> old_isSeparator (strings_TrimSpace ''POST http://h/login'')
   \<and> map item_Name (old_items (old_seal (old_processLines Map.empty
           (old_processLine Map.empty old_initState ''### Login'') [''POST http://h/login''])))
       = [''Login'']"
proof -
  let ?st1 = "old_processLines Map.empty (old_processLine Map.empty old_initState ''### Login'')
                [''POST http://h/login'']"
  have h1: "\<not> inRequestScript oneRequestState \<and> requestSeparatorRegex (strings_TrimSpace ''### Login'')"
    by code_simp
  have h2: "req_Method (req oneRequestState) \<noteq> [] \<and> url_Raw (url oneRequestState) \<noteq> []"
    by code_simp
  have h3: "old_isSeparator (strings_TrimSpace ''### Login'')
            \<and> (\<forall>l\<in>set [''POST http://h/login'']. \<not> old_isSeparator (strings_TrimSpace l))"
    by code_simp
  have h4: "req_Method (old_req ?st1) \<noteq> [] \<and> url_Raw (old_url ?st1) \<noteq> []"
    by code_simp
  have e: "currentRequestName oneRequestState = []" "count oneRequestState = 0"
    "showNat (Suc 0) = ''1''" "old_items ?st1 = []"
    "strings_TrimSpace (strings_TrimPrefix (strings_TrimSpace ''### Login'') ''###'') = ''Login''"
    by code_simp+
  note t = separator_text_and_request_names
    [of oneRequestState "''### Login''" "[''POST http://h/login'']" Map.empty old_initState "[]"]
  from t h1 have "currentRequestName (processLine oneRequestState ''### Login'') = []"
    by blast
  moreover from t h2 have "item_Name (item (sealOnSeparator oneRequestState)) = ''request-1''"
    by (simp add: e)
  moreover from t [THEN conjunct2, THEN conjunct2, THEN conjunct1, rule_format, OF h3,
      THEN conjunct2, rule_format, OF h4]
  have "map item_Name (old_items (old_seal ?st1)) = [''Login'']"
    by (simp add: e)
  ultimately show ?thesis
    using h1 h2 h3 by simp
qed

section \<open>C8: no request with an empty method in the document\<close>

text \<open>
  C8. Whenever the conversion returns a document: if, on the lines that the scanner
  delivered, groups were declared and at least one group was stored (grouped mode),
  every item of the document is a folder, an item with the empty request of its own
  that holds at least one request and only requests whose method is not empty;
  otherwise (flat mode) every item of the document has a method that is not empty.
\<close>

theorem no_item_with_empty_method:
  assumes "convertHTTPToPostman lines envResult rangeOrder today = Inr doc"
  shows "(hasGroupSeparators (sealLast (processLines initState (scannerLines lines)))
            \<and> finalGroups (sealLast (processLines initState (scannerLines lines))) \<noteq> [] \<longrightarrow>
          (\<forall>folder\<in>set (coll_Items doc).
              item_Request folder = emptyRequest \<and> item_Item folder \<noteq> []
              \<and> (\<forall>i\<in>set (item_Item folder). req_Method (item_Request i) \<noteq> [])))
       \<and> (\<not> (hasGroupSeparators (sealLast (processLines initState (scannerLines lines)))
               \<and> finalGroups (sealLast (processLines initState (scannerLines lines))) \<noteq> []) \<longrightarrow>
          (\<forall>i\<in>set (coll_Items doc). req_Method (item_Request i) \<noteq> []))"
proof (intro conjI impI)
  let ?st = "sealLast (processLines initState (scannerLines lines))"
  assume g: "hasGroupSeparators ?st \<and> finalGroups ?st \<noteq> []"
  have "coll_Items doc = foldl folderItem [] (finalGroups ?st)"
    using convert_Inr_items [OF assms] g by (simp add: collectionItems_def)
  moreover have "\<forall>f\<in>set (foldl folderItem [] (finalGroups ?st)).
      item_Request f = emptyRequest \<and> item_Item f \<noteq> [] \<and> (\<forall>i\<in>set (item_Item f). validItem i)"
    by (rule folders_valid)
  ultimately show "\<forall>folder\<in>set (coll_Items doc).
              item_Request folder = emptyRequest \<and> item_Item folder \<noteq> []
              \<and> (\<forall>i\<in>set (item_Item folder). req_Method (item_Request i) \<noteq> [])"
    by (simp add: validItem_def)
next
  let ?st = "sealLast (processLines initState (scannerLines lines))"
  assume g: "\<not> (hasGroupSeparators ?st \<and> finalGroups ?st \<noteq> [])"
  have "coll_Items doc = filter validItem (allItems ?st)"
    using convert_Inr_items [OF assms] g by (auto simp add: collectionItems_def)
  then show "\<forall>i\<in>set (coll_Items doc). req_Method (item_Request i) \<noteq> []"
    by (simp add: validItem_def)
qed

text \<open>C8 on a grouped input and on a flat input.\<close>

theorem no_item_with_empty_method_witness:
  "(\<exists>doc. convertHTTPToPostman groupedInput (Inr Map.empty) [] ''20240101120000'' = Inr doc
          \<and> map item_Name (coll_Items doc) = [''Users'']
          \<and> list_all (\<lambda>folder. item_Item folder \<noteq> []
                \<and> list_all (\<lambda>i. req_Method (item_Request i) \<noteq> []) (item_Item folder))
               (coll_Items doc))
   \<and> (\<exists>doc. convertHTTPToPostman jsonTestInput (Inr Map.empty) [] ''20240101120000'' = Inr doc
          \<and> map item_Name (coll_Items doc) = [''request-1'']
          \<and> list_all (\<lambda>i. req_Method (item_Request i) \<noteq> []) (coll_Items doc))"
proof -
  obtain d1 where d1: "convertHTTPToPostman groupedInput (Inr Map.empty) [] ''20240101120000'' = Inr d1"
    by (simp add: convertHTTPToPostman_def afterPrescan_def scanner_grouped Let_def)
  obtain d2 where d2: "convertHTTPToPostman jsonTestInput (Inr Map.empty) [] ''20240101120000'' = Inr d2"
    by (simp add: convertHTTPToPostman_def afterPrescan_def scanner_jsonTest Let_def)
  have m1: "hasGroupSeparators (sealLast (processLines initState groupedInput))
            \<and> finalGroups (sealLast (processLines initState groupedInput)) \<noteq> []"
    by code_simp
  have m2: "\<not> (hasGroupSeparators (sealLast (processLines initState jsonTestInput))
            \<and> finalGroups (sealLast (processLines initState jsonTestInput)) \<noteq> [])"
    by code_simp
  have n1: "map item_Name (collectionItems (hasGroupSeparators (sealLast (processLines initState groupedInput)))
         (finalGroups (sealLast (processLines initState groupedInput)))
         (allItems (sealLast (processLines initState groupedInput)))) = [''Users'']"
    by code_simp
  have n2: "map item_Name (collectionItems (hasGroupSeparators (sealLast (processLines initState jsonTestInput)))
         (finalGroups (sealLast (processLines initState jsonTestInput)))
         (allItems (sealLast (processLines initState jsonTestInput)))) = [''request-1'']"
    by code_simp
  from no_item_with_empty_method [OF d1] m1
  have "list_all (\<lambda>folder. item_Item folder \<noteq> []
                \<and> list_all (\<lambda>i. req_Method (item_Request i) \<noteq> []) (item_Item folder))
               (coll_Items d1)"
    by (simp add: list_all_iff scanner_grouped)
  moreover from no_item_with_empty_method [OF d2] m2
  have "list_all (\<lambda>i. req_Method (item_Request i) \<noteq> []) (coll_Items d2)"
    by (simp add: list_all_iff scanner_jsonTest)
  ultimately show ?thesis
    using d1 d2 n1 n2 convert_Inr_items [OF d1] convert_Inr_items [OF d2]
    by (simp add: scanner_grouped scanner_jsonTest)
qed

section \<open>C9: lines inside a multi-line script block\<close>

text \<open>
  C9, as amended. While a multi-line script block is open, no line changes the header
  list, the body, the body text or the JSON flag. A line without the close token that
  is neither a group line, a name annotation, a description annotation nor a
  declaration of a local variable has one effect at most: a match of the setter
  pattern is recorded in the table of request variables.
\<close>

theorem script_line_only_sets_request_variables:
  assumes "inRequestScript st"
  shows "headers (processLine st text) = headers st \<and> body (processLine st text) = body st
     \<and> data (processLine st text) = data st \<and> startedJSON (processLine st text) = startedJSON st
     \<and> (groupRegex (strings_TrimSpace text) = None \<and> nameRegex (strings_TrimSpace text) = None
        \<and> descriptionRegex (strings_TrimSpace text) = None
        \<and> localVariableRegex (strings_TrimSpace text) = None
        \<and> \<not> strings_Contains (strings_TrimSpace text) ''%}'' \<longrightarrow>
          processLine st text =
            (case requestVariableRegex (strings_TrimSpace text) of
               Some (varName, varValue) \<Rightarrow>
                 st\<lparr>requestVariables := (requestVariables st)(varName \<mapsto> varValue)\<rparr>
             | None \<Rightarrow> st))"
proof -
  have frame: "headers (processLine st text) = headers st \<and> body (processLine st text) = body st
     \<and> data (processLine st text) = data st \<and> startedJSON (processLine st text) = startedJSON st"
    using assms
    by (simp add: processLine_def Let_def onGroup_def scanSetter_frame split: option.splits)
  have only: "processLine st text = scanSetter st (strings_TrimSpace text)"
    if "groupRegex (strings_TrimSpace text) = None" "nameRegex (strings_TrimSpace text) = None"
       "descriptionRegex (strings_TrimSpace text) = None"
       "localVariableRegex (strings_TrimSpace text) = None"
       "\<not> strings_Contains (strings_TrimSpace text) ''%}''"
  proof (cases "strings_TrimSpace text = []")
    case True
    then show ?thesis by (simp add: processLine_def scanSetter_def)
  next
    case False
    with that assms show ?thesis
      by (simp add: processLine_def Let_def script_flag_idem)
  qed
  show ?thesis
    using frame only by (auto simp add: scanSetter_def split: option.splits)
qed

text \<open>
  C9 as stated fails: the cases for annotations stand before the case for script
  lines. Inside an open script block the comment line \<^verbatim>\<open>// set the token\<close> is taken as
  a description annotation and sets the pending description.
\<close>

theorem script_comment_sets_description:
  "inRequestScript scriptState \<and> currentRequestDescription scriptState = []
   \<and> currentRequestDescription (processLine scriptState ''// set the token'') = ''set the token''
   \<and> requestVariables (processLine scriptState ''// set the token'') ''token'' = requestVariables scriptState ''token''"
  by code_simp

text \<open>C9 at a setter line inside an open script block.\<close>

theorem script_line_only_sets_request_variables_witness:
  \<open>inRequestScript scriptState
   \<and> requestVariables (processLine scriptState ''  request.variables.set("id", "42");'') ''id'' = Some ''42''
   \<and> headers (processLine scriptState ''  request.variables.set("id", "42");'') = headers scriptState\<close>
proof -
  have s: "inRequestScript scriptState" by code_simp
  have h: \<open>groupRegex (strings_TrimSpace ''  request.variables.set("id", "42");'') = None \<and> nameRegex (strings_TrimSpace ''  request.variables.set("id", "42");'') = None
        \<and> descriptionRegex (strings_TrimSpace ''  request.variables.set("id", "42");'') = None
        \<and> localVariableRegex (strings_TrimSpace ''  request.variables.set("id", "42");'') = None
        \<and> \<not> strings_Contains (strings_TrimSpace ''  request.variables.set("id", "42");'') ''%}''\<close>
    by code_simp
  have r: \<open>requestVariableRegex (strings_TrimSpace ''  request.variables.set("id", "42");'') = Some (''id'', ''42'')\<close>
    by code_simp
  from script_line_only_sets_request_variables [OF s, of \<open>''  request.variables.set("id", "42");''\<close>] h r
  show ?thesis using s by simp
qed

section \<open>C10: two method lines in one request block\<close>

text \<open>
  C10. Take two method lines of one request block: both read outside a script block,
  and between them only lines that are neither separators nor method lines. After the
  second line the method and the raw URL of the accumulator are those of the second
  line (its first and second field), and the query list is the list before the first
  line followed by the query parameters of the first URL and then those of the second
  URL. The request sealed from that state carries this method, this URL and this query
  list.
\<close>

theorem second_method_line_keeps_first_query:
  assumes "\<not> inRequestScript st"
    and "httpMethodRegex (strings_TrimSpace t1)"
    and "\<forall>l\<in>set between. \<not> requestSeparatorRegex (strings_TrimSpace l)
                          \<and> \<not> httpMethodRegex (strings_TrimSpace l)"
    and "\<not> inRequestScript (processLines (processLine st t1) between)"
    and "httpMethodRegex (strings_TrimSpace t2)"
  shows "req_Method (req (processLine (processLines (processLine st t1) between) t2))
           = strings_Fields (strings_TrimSpace t2) ! 0
       \<and> url_Raw (url (processLine (processLines (processLine st t1) between) t2))
           = strings_Fields (strings_TrimSpace t2) ! 1
       \<and> query (processLine (processLines (processLine st t1) between) t2)
           = query st @ parseQuery (strings_Fields (strings_TrimSpace t1) ! 1) []
                      @ parseQuery (strings_Fields (strings_TrimSpace t2) ! 1) []
       \<and> item_Request (item (sealLast (processLine (processLines (processLine st t1) between) t2)))
           = \<lparr>req_Method = strings_Fields (strings_TrimSpace t2) ! 0,
              req_Header = headers (processLine (processLines (processLine st t1) between) t2),
              req_Body = body (processLine (processLines (processLine st t1) between) t2),
              req_URL = (url (processLine (processLines (processLine st t1) between) t2))
                 \<lparr>url_Query := query st @ parseQuery (strings_Fields (strings_TrimSpace t1) ! 1) []
                      @ parseQuery (strings_Fields (strings_TrimSpace t2) ! 1) []\<rparr>\<rparr>"
proof -
  let ?l1 = "strings_TrimSpace t1" and ?l2 = "strings_TrimSpace t2"
  let ?mid = "processLines (processLine st t1) between"
  let ?st2 = "processLine ?mid t2"
  note f1 = method_line_fields [OF assms(2)] and f2 = method_line_fields [OF assms(5)]
  have p1: "processLine st t1 = onMethod st ?l1"
    using assms(1,2) by (rule processLine_method)
  have q1: "query (processLine st t1) = query st @ parseQuery (strings_Fields ?l1 ! 1) []"
    using f1 p1 by (simp add: onMethod_fields)
  have qm: "query ?mid = query (processLine st t1)"
    using assms(3) by (rule processLines_query)
  have p2: "?st2 = onMethod ?mid ?l2"
    using assms(4,5) by (rule processLine_method)
  have m: "req_Method (req ?st2) = strings_Fields ?l2 ! 0"
    and u: "url_Raw (url ?st2) = strings_Fields ?l2 ! 1"
    using f2 p2 by (simp_all add: onMethod_fields)
  have q: "query ?st2 = query st @ parseQuery (strings_Fields ?l1 ! 1) []
                            @ parseQuery (strings_Fields ?l2 ! 1) []"
    using f2 p2 q1 qm by (simp add: onMethod_fields)
  have "strings_Fields ?l2 ! 0 \<in> set (strings_Fields ?l2)"
       "strings_Fields ?l2 ! 1 \<in> set (strings_Fields ?l2)"
    using f2 by (auto intro!: nth_mem)
  then have ne: "strings_Fields ?l2 ! 0 \<noteq> []" "strings_Fields ?l2 ! 1 \<noteq> []"
    using fields_from_no_empty_field [of "[]" ?l2] by (auto simp add: strings_Fields_def)
  have "item_Request (item (sealLast ?st2))
          = \<lparr>req_Method = req_Method (req ?st2), req_Header = headers ?st2, req_Body = body ?st2,
             req_URL = (url ?st2)\<lparr>url_Query := query ?st2\<rparr>\<rparr>"
    using ne m u by (simp add: sealLast_item)
  then show ?thesis
    using m u q by simp
qed

text \<open>C10 on a GET line, a header line and a POST line, from the initial state.\<close>

theorem second_method_line_keeps_first_query_witness:
  "\<not> inRequestScript initState
   \<and> httpMethodRegex (strings_TrimSpace ''GET http://h/a?x=1'')
   \<and> \<not> requestSeparatorRegex (strings_TrimSpace ''Accept: text/plain'')
   \<and> \<not> httpMethodRegex (strings_TrimSpace ''Accept: text/plain'')
   \<and> httpMethodRegex (strings_TrimSpace ''POST http://h/b?y=2'')
   \<and> processLines initState twoMethodsInput
       = processLine (processLines (processLine initState ''GET http://h/a?x=1'')
                        [''Accept: text/plain'']) ''POST http://h/b?y=2''
   \<and> req_Method (req (processLines initState twoMethodsInput)) = ''POST''
   \<and> url_Raw (url (processLines initState twoMethodsInput)) = ''http://h/b?y=2''
   \<and> query (processLines initState twoMethodsInput)
       = [\<lparr>qp_Key = ''x'', qp_Value = ''1''\<rparr>, \<lparr>qp_Key = ''y'', qp_Value = ''2''\<rparr>]"
proof -
  have h: "\<not> inRequestScript initState"
    "httpMethodRegex (strings_TrimSpace ''GET http://h/a?x=1'')"
    "\<forall>l\<in>set [''Accept: text/plain'']. \<not> requestSeparatorRegex (strings_TrimSpace l)
                          \<and> \<not> httpMethodRegex (strings_TrimSpace l)"
    "\<not> inRequestScript (processLines (processLine initState ''GET http://h/a?x=1'')
                           [''Accept: text/plain''])"
    "httpMethodRegex (strings_TrimSpace ''POST http://h/b?y=2'')"
    by code_simp+
  have r: "processLines initState twoMethodsInput
       = processLine (processLines (processLine initState ''GET http://h/a?x=1'')
                        [''Accept: text/plain'']) ''POST http://h/b?y=2''"
    by (simp add: twoMethodsInput_def processLines_def)
  have e: "strings_Fields (strings_TrimSpace ''POST http://h/b?y=2'') ! 0 = ''POST''"
    "strings_Fields (strings_TrimSpace ''POST http://h/b?y=2'') ! 1 = ''http://h/b?y=2''"
    "query initState @ parseQuery (strings_Fields (strings_TrimSpace ''GET http://h/a?x=1'') ! 1) []
        @ parseQuery (strings_Fields (strings_TrimSpace ''POST http://h/b?y=2'') ! 1) []
      = [\<lparr>qp_Key = ''x'', qp_Value = ''1''\<rparr>, \<lparr>qp_Key = ''y'', qp_Value = ''2''\<rparr>]"
    by code_simp+
  from second_method_line_keeps_first_query [OF h] e h r show ?thesis
    by simp
qed

end
